theory Spec2Isabelle
  imports Main "HOL-Library.Char_ord" "HOL-Library.List_Lexorder" "HOL-Library.AList"
begin

section \<open>Constants module (aws-common-utils/src/constants.ts)\<close>

definition SERVICE_PRINCIPALS :: "(string \<times> string) list" where
  "SERVICE_PRINCIPALS = [(''sns'', ''sns.amazonaws.com'')]"

definition REGIONS :: "string list" where
  "REGIONS =
    [''us-east-1'', ''us-east-2'', ''us-west-2'', ''us-west-1'', ''ca-central-1'',
     ''sa-east-1'', ''amazonaws-us-gov'', ''eu-west-1'', ''eu-west-2'', ''eu-west-3'',
     ''eu-central-1'', ''ap-southeast-1'', ''ap-northeast-1'', ''ap-northeast-3'',
     ''ap-southeast-2'', ''ap-northeast-2'', ''ap-south-1'', ''cn-north-1'',
     ''cn-northwest-1'']"

section \<open>Values and option objects\<close>

text \<open>
  The plain data an options object can hold. A JavaScript object is an association list in
  insertion order; the first binding of a key is the one that counts. Numbers are the
  integers. \<open>JUndefined\<close> is the value \<open>undefined\<close>, which a property can hold
  (\<open>process.env.AWS_REGION\<close> of an unset variable).
\<close>

datatype json =
    JUndefined
  | JNull
  | JBool bool
  | JNum int
  | JStr string
  | JArr "json list"
  | JObj "(string \<times> json) list"

type_synonym opts = "(string \<times> json) list"

text \<open>Reading a property: \<open>undefined\<close> when the object has no such key.\<close>

definition get_prop :: "opts \<Rightarrow> string \<Rightarrow> json" where
  "get_prop obj k = (case map_of obj k of None \<Rightarrow> JUndefined | Some v \<Rightarrow> v)"

text \<open>
  Object spread \<open>{ ...base, ...over }\<close>: the properties of \<open>base\<close>, then those of
  \<open>over\<close> assigned in order. An assignment to a key that exists replaces its value in
  place, a new key is appended. Spreading \<open>undefined\<close> adds nothing. The properties
  of an object are its first bindings (\<open>AList.clearjunk\<close> drops the shadowed ones).
\<close>

definition assign :: "opts \<Rightarrow> opts \<Rightarrow> opts" where
  "assign base over = fold (\<lambda>(k, v). AList.update k v) (AList.clearjunk over) base"

definition spread :: "opts \<Rightarrow> opts option \<Rightarrow> opts" where
  "spread base over = assign (assign [] base) (case over of None \<Rightarrow> [] | Some ov \<Rightarrow> ov)"

section \<open>json-stable-stringify\<close>

text \<open>
  The library function the memoization keys come from, on the values above:
  \<open>undefined\<close> has no serialization, array holes print as \<open>null\<close>, object keys are
  sorted and a key whose value has no serialization is left out. Strings are quoted as
  \<open>JSON.stringify\<close> quotes them.
\<close>

fun show_nat :: "nat \<Rightarrow> string" where
  "show_nat n =
     (if n < 10 then [''0123456789'' ! n]
      else show_nat (n div 10) @ [''0123456789'' ! (n mod 10)])"

declare show_nat.simps [simp del]

definition show_int :: "int \<Rightarrow> string" where
  "show_int i = (if i < 0 then CHR ''-'' # show_nat (nat (- i)) else show_nat (nat i))"

definition hex_digit :: "nat \<Rightarrow> char" where
  "hex_digit n = ''0123456789abcdef'' ! n"

definition escape_char :: "char \<Rightarrow> string" where
  "escape_char c =
     (if c = CHR 0x22 then [CHR 0x5C, CHR 0x22]
      else if c = CHR 0x5C then [CHR 0x5C, CHR 0x5C]
      else if c = CHR 0x08 then [CHR 0x5C, CHR ''b'']
      else if c = CHR 0x0C then [CHR 0x5C, CHR ''f'']
      else if c = CHR 0x0A then [CHR 0x5C, CHR ''n'']
      else if c = CHR 0x0D then [CHR 0x5C, CHR ''r'']
      else if c = CHR 0x09 then [CHR 0x5C, CHR ''t'']
      else if (of_char c :: nat) < 32
        then [CHR 0x5C, CHR ''u'', CHR ''0'', CHR ''0'',
              hex_digit ((of_char c :: nat) div 16), hex_digit ((of_char c :: nat) mod 16)]
      else [c])"

definition quote :: "string \<Rightarrow> string" where
  "quote s = CHR 0x22 # concat (map escape_char s) @ [CHR 0x22]"

fun join :: "string list \<Rightarrow> string" where
  "join [] = []"
| "join [x] = x"
| "join (x # y # ys) = x @ CHR '','' # join (y # ys)"

fun stableStringify :: "json \<Rightarrow> string option" where
  "stableStringify JUndefined = None"
| "stableStringify JNull = Some ''null''"
| "stableStringify (JBool b) = Some (if b then ''true'' else ''false'')"
| "stableStringify (JNum n) = Some (show_int n)"
| "stableStringify (JStr s) = Some (quote s)"
| "stableStringify (JArr xs) =
     Some (''['' @ join (map (\<lambda>x. case stableStringify x of None \<Rightarrow> ''null'' | Some s \<Rightarrow> s) xs)
           @ '']'')"
| "stableStringify (JObj kvs) =
     (let vals = map (\<lambda>(k, v). (k, stableStringify v)) kvs;
          keys = sort (remdups (map fst kvs))
      in Some (''{'' @ join (List.map_filter
                 (\<lambda>key. case map_of vals key of
                    Some (Some value) \<Rightarrow> Some (quote key @ '':'' @ value)
                  | _ \<Rightarrow> None) keys) @ ''}''))"

section \<open>The SDK: global configuration, client objects, constructors\<close>

text \<open>
  The SDK is an external collaborator. The model keeps what \<open>factory.ts\<close> can observe of
  it: a heap of client objects addressed by reference (a constructor call allocates a new
  one), a trace of the calls made into the SDK with their arguments, and of the
  configuration objects the one property \<open>factory.ts\<close> reads and writes,
  \<open>systemClockOffset\<close>. What \<open>AWS.config.update\<close> and the constructors do to the other
  configuration properties is the SDK's own business and is not followed. Whether a
  constructor throws is a parameter \<open>sdk\<close> of the model: it may depend on the class, the
  options and the state.
\<close>

datatype sdk_class =
    S3 | DynamoDB | DocumentClient | DynamoDBStreams | IAM | Iot | STS | SNS | SQS | SES
  | KMS | Lambda | IotData | XRay | APIGateway | CloudWatch | CloudWatchLogs | CloudFormation

datatype exn = SdkError string | TypeError

type_synonym ref = nat

text \<open>
  The property \<open>systemClockOffset\<close> of a service's configuration object: a data property
  with a value of its own, or, once redefined by \<open>useGlobalConfigClock\<close>, the accessor of
  the global offset.
\<close>

datatype clock_property = OwnValue json | GlobalAccessor

record config =
  clockOffset :: clock_property

datatype obj =
    ServiceObj sdk_class "config option"
  | DocumentClientObj ref

datatype event =
    ConfigUpdate opts
  | Construct sdk_class opts

text \<open>The field \<open>globalClockOffset\<close> is \<open>AWS.config.systemClockOffset\<close>.\<close>

record world =
  heap :: "obj list"
  globalClockOffset :: json
  trace :: "event list"

type_synonym sdk = "sdk_class \<Rightarrow> opts \<Rightarrow> world \<Rightarrow> exn option"

definition deref :: "world \<Rightarrow> ref \<Rightarrow> obj option" where
  "deref w r = (if r < length (heap w) then Some (heap w ! r) else None)"

definition alloc :: "obj \<Rightarrow> world \<Rightarrow> ref \<times> world" where
  "alloc ob w = (length (heap w), w\<lparr>heap := heap w @ [ob]\<rparr>)"

definition systemClockOffset :: string where
  "systemClockOffset = ''systemClockOffset''"

text \<open>
  \<open>Config.set\<close> on the key \<open>systemClockOffset\<close>: the value \<open>undefined\<close> resets the
  property to its default, which is 0.
\<close>

definition config_set_clock :: "json \<Rightarrow> json" where
  "config_set_clock v = (if v = JUndefined then JNum 0 else v)"

text \<open>
  \<open>AWS.config.update(options)\<close>: the call is traced. \<open>systemClockOffset\<close> is one of the
  configuration keys, so the update sets it when the options have it.
\<close>

definition config_update :: "opts \<Rightarrow> world \<Rightarrow> world" where
  "config_update options w =
     (let w1 = w\<lparr>trace := trace w @ [ConfigUpdate options]\<rparr> in
      case map_of options systemClockOffset of
        None \<Rightarrow> w1
      | Some v \<Rightarrow> w1\<lparr>globalClockOffset := config_set_clock v\<rparr>)"

text \<open>
  \<open>new AWS.X(opts)\<close>: the call is traced; the constructor throws when \<open>sdk\<close> says so;
  otherwise a service object is allocated whose configuration is a copy of the global one
  updated with \<open>opts\<close>, so its clock offset is that of \<open>opts\<close> when they have the key
  and the global one otherwise. A document client wraps a DynamoDB service object built
  from the same options.
\<close>

definition new_client :: "sdk \<Rightarrow> sdk_class \<Rightarrow> opts \<Rightarrow> world \<Rightarrow> (exn + ref) \<times> world" where
  "new_client sdk cls options w =
     (let w1 = w\<lparr>trace := trace w @ [Construct cls options]\<rparr> in
      case sdk cls options w of
        Some e \<Rightarrow> (Inl e, w1)
      | None \<Rightarrow>
          (let cfg = \<lparr>clockOffset = OwnValue (config_set_clock
                      (case map_of options systemClockOffset of
                         None \<Rightarrow> globalClockOffset w1
                       | Some v \<Rightarrow> v))\<rparr> in
           if cls = DocumentClient then
             (let (s, w2) = alloc (ServiceObj DynamoDB (Some cfg)) w1;
                  (d, w3) = alloc (DocumentClientObj s) w2
              in (Inr d, w3))
           else
             (let (s, w2) = alloc (ServiceObj cls (Some cfg)) w1 in (Inr s, w2))))"

section \<open>factory.ts\<close>

record CreateClientsFactoryOpts =
  defaults :: "opts option"
  useGlobalConfigClock_opt :: "bool option"

text \<open>The table \<open>factories\<close>: each entry is \<open>(opts = {}) => new AWS.X(opts)\<close>.\<close>

definition factories :: "(string \<times> sdk_class) list" where
  "factories =
    [(''s3'', S3), (''dynamodb'', DynamoDB), (''documentclient'', DocumentClient),
     (''dynamodbstreams'', DynamoDBStreams), (''iam'', IAM), (''iot'', Iot), (''sts'', STS),
     (''sns'', SNS), (''sqs'', SQS), (''ses'', SES), (''kms'', KMS), (''lambda'', Lambda),
     (''iotdata'', IotData), (''xray'', XRay), (''apigateway'', APIGateway),
     (''cloudwatch'', CloudWatch), (''cloudwatchlogs'', CloudWatchLogs),
     (''cloudformation'', CloudFormation)]"

definition factories_call ::
  "sdk \<Rightarrow> sdk_class \<Rightarrow> opts option \<Rightarrow> world \<Rightarrow> (exn + ref) \<times> world" where
  "factories_call sdk cls arg w =
     new_client sdk cls (case arg of None \<Rightarrow> [] | Some options \<Rightarrow> options) w"

text \<open>\<open>FACTORY_DEFAULTS\<close>, from the environment variable \<open>AWS_REGION\<close> (absent: \<open>None\<close>).\<close>

definition FACTORY_DEFAULTS :: "string option \<Rightarrow> opts" where
  "FACTORY_DEFAULTS env_region =
     [(''region'', case env_region of None \<Rightarrow> JUndefined | Some r \<Rightarrow> JStr r)]"

subsection \<open>useGlobalConfigClock\<close>

definition useGlobalConfigClock :: "ref \<Rightarrow> world \<Rightarrow> world" where
  "useGlobalConfigClock service w =
     (let service1 = (case deref w service of
                        Some (DocumentClientObj s) \<Rightarrow> s
                      | _ \<Rightarrow> service)
      in case deref w service1 of
           Some (ServiceObj cls (Some cfg)) \<Rightarrow>
             w\<lparr>heap := (heap w)[service1 :=
                  ServiceObj cls (Some (cfg\<lparr>clockOffset := GlobalAccessor\<rparr>))]\<rparr>
         | _ \<Rightarrow> w)"

text \<open>Reading and writing \<open>service.config.systemClockOffset\<close> of a service object.\<close>

definition read_clock :: "world \<Rightarrow> ref \<Rightarrow> json option" where
  "read_clock w service =
     (case deref w service of
        Some (ServiceObj cls (Some cfg)) \<Rightarrow>
          Some (case clockOffset cfg of
                  GlobalAccessor \<Rightarrow> globalClockOffset w
                | OwnValue v \<Rightarrow> v)
      | _ \<Rightarrow> None)"

definition write_clock :: "ref \<Rightarrow> json \<Rightarrow> world \<Rightarrow> world" where
  "write_clock service v w =
     (case deref w service of
        Some (ServiceObj cls (Some cfg)) \<Rightarrow>
          (case clockOffset cfg of
             GlobalAccessor \<Rightarrow> w\<lparr>globalClockOffset := v\<rparr>
           | OwnValue v0 \<Rightarrow>
               w\<lparr>heap := (heap w)[service :=
                    ServiceObj cls (Some (cfg\<lparr>clockOffset := OwnValue v\<rparr>))]\<rparr>)
      | _ \<Rightarrow> w)"

text \<open>\<open>AWS.config.systemClockOffset\<close>, read and assigned directly.\<close>

definition global_clock :: "world \<Rightarrow> json" where
  "global_clock w = globalClockOffset w"

definition set_global_clock :: "json \<Rightarrow> world \<Rightarrow> world" where
  "set_global_clock v w = w\<lparr>globalClockOffset := v\<rparr>"

subsection \<open>lodash memoize\<close>

text \<open>
  \<open>memoize(func, resolver)\<close> with its cache made explicit: the key is
  \<open>resolver(arg)\<close>; a key in the cache returns the stored result without calling
  \<open>func\<close>; otherwise \<open>func\<close> runs and its result is stored, unless it throws.
\<close>

definition memoize ::
  "('a \<Rightarrow> 's \<Rightarrow> (exn + 'r) \<times> 's) \<Rightarrow> ('a \<Rightarrow> 'k) \<Rightarrow> ('k \<times> 'r) list \<Rightarrow> 'a \<Rightarrow> 's
     \<Rightarrow> (exn + 'r) \<times> ('k \<times> 'r) list \<times> 's" where
  "memoize func resolver cache arg s =
     (let key = resolver arg in
      case map_of cache key of
        Some result \<Rightarrow> (Inr result, cache, s)
      | None \<Rightarrow>
          (case func arg s of
             (Inl e, s1) \<Rightarrow> (Inl e, cache, s1)
           | (Inr result, s1) \<Rightarrow> (Inr result, AList.update key result cache, s1)))"

subsection \<open>createClientFactory\<close>

text \<open>
  The factory object: what its closures captured (\<open>defaults\<close>, \<open>clientsOpts\<close>) and, for
  each service name, the cache of its memoized constructor.
\<close>

record client_factory =
  f_defaults :: opts
  f_clientsOpts :: CreateClientsFactoryOpts
  f_memoized :: "(string \<times> (string option \<times> ref) list) list"

definition resolver :: "opts option \<Rightarrow> string option" where
  "resolver arg = (case arg of None \<Rightarrow> None | Some options \<Rightarrow> stableStringify (JObj options))"

text \<open>The memoized function body, lines 77 to 84.\<close>

definition construct ::
  "sdk \<Rightarrow> client_factory \<Rightarrow> sdk_class \<Rightarrow> opts option \<Rightarrow> world \<Rightarrow> (exn + ref) \<times> world" where
  "construct sdk f cls arg w =
     (case factories_call sdk cls (Some (spread (f_defaults f) arg)) w of
        (Inl e, w1) \<Rightarrow> (Inl e, w1)
      | (Inr client, w1) \<Rightarrow>
          (Inr client,
           if useGlobalConfigClock_opt (f_clientsOpts f) = Some True
           then useGlobalConfigClock client w1 else w1))"

definition createClientFactory ::
  "string option \<Rightarrow> CreateClientsFactoryOpts \<Rightarrow> world \<Rightarrow> client_factory \<times> world" where
  "createClientFactory env_region clientsOpts w =
     (let dflts = (case defaults clientsOpts of
                     None \<Rightarrow> FACTORY_DEFAULTS env_region
                   | Some d \<Rightarrow> d);
          w1 = config_update dflts w;
          memoized = map (\<lambda>(serviceName, value). (serviceName, [])) factories
      in (\<lparr>f_defaults = dflts, f_clientsOpts = clientsOpts, f_memoized = memoized\<rparr>, w1))"

subsection \<open>Properties of the factory and of the cache object\<close>

text \<open>
  The factory is the plain object \<open>{}\<close> that \<open>transform\<close> fills, and the cache object is
  a plain object too (\<open>{} as ClientCache\<close>): besides their own properties both have the
  members of \<open>Object.prototype\<close>.
\<close>

definition object_prototype :: "string list" where
  "object_prototype =
     [''constructor'', ''__defineGetter__'', ''__defineSetter__'', ''hasOwnProperty'',
      ''__lookupGetter__'', ''__lookupSetter__'', ''isPrototypeOf'', ''propertyIsEnumerable'',
      ''toString'', ''valueOf'', ''__proto__'', ''toLocaleString'']"

text \<open>
  The values that reading a property or calling one can give: \<open>undefined\<close>, a client, a
  memoized constructor (with its cache), the factory, the map \<open>instantiated\<close>, a member
  inherited from \<open>Object.prototype\<close>, and the strings, booleans and plain objects that
  the inherited methods return.
\<close>

datatype prop_value =
    Undefined
  | Client ref
  | Memoized "(string option \<times> ref) list"
  | FactoryObj client_factory
  | InstantiatedObj "(string \<times> ref) list"
  | Inherited string
  | Str string
  | Bool bool
  | Plain opts

text \<open>
  Reading the property \<open>factory[serviceName]\<close>: the memoized constructor when the
  factory has it as its own property, the inherited member for a name of
  \<open>Object.prototype\<close>, and \<open>undefined\<close> otherwise.
\<close>

definition factory_get :: "client_factory \<Rightarrow> string \<Rightarrow> prop_value" where
  "factory_get f serviceName =
     (case map_of (f_memoized f) serviceName of
        Some cache \<Rightarrow> Memoized cache
      | None \<Rightarrow> if serviceName \<in> set object_prototype then Inherited serviceName else Undefined)"

text \<open>
  The call of the memoized constructor that the factory holds under \<open>serviceName\<close> with
  the cache \<open>cache\<close>. The memoized function was built by \<open>transform\<close> for a key
  \<open>serviceName\<close> of \<open>factories\<close>, and \<open>factories[serviceName]\<close> is the constructor it
  calls.
\<close>

definition memoized_call ::
  "sdk \<Rightarrow> client_factory \<Rightarrow> string \<Rightarrow> (string option \<times> ref) list \<Rightarrow> opts option \<Rightarrow> world
     \<Rightarrow> (exn + ref) \<times> client_factory \<times> world" where
  "memoized_call sdk f serviceName cache arg w =
     (case map_of factories serviceName of
        Some cls \<Rightarrow>
          (case memoize (construct sdk f cls) resolver cache arg w of
             (res, cache1, w1) \<Rightarrow>
               (res, f\<lparr>f_memoized := AList.update serviceName cache1 (f_memoized f)\<rparr>, w1))
      | None \<Rightarrow> (Inl TypeError, f, w))"

text \<open>
  \<open>ToPropertyKey\<close> of the argument of a call, as the inherited methods that take a
  property name apply it: \<open>undefined\<close> is the name \<open>undefined\<close>; an options object is
  converted by its \<open>toString\<close>, which is the inherited one unless the object has a
  property of that name, and a property holding plain data cannot be called.
\<close>

definition to_property_key :: "opts option \<Rightarrow> exn + string" where
  "to_property_key arg =
     (case arg of
        None \<Rightarrow> Inr ''undefined''
      | Some options \<Rightarrow>
          if ''toString'' \<in> fst ` set options then Inl TypeError else Inr ''[object Object]'')"

text \<open>
  The call \<open>factory[m](arg)\<close> for a member \<open>m\<close> of \<open>Object.prototype\<close>. None of them
  changes the factory or the state of the SDK. \<open>__proto__\<close> is an object, not a function;
  \<open>__defineGetter__\<close> and \<open>__defineSetter__\<close> throw for want of a function as second
  argument.
\<close>

definition object_prototype_call :: "client_factory \<Rightarrow> string \<Rightarrow> opts option \<Rightarrow> exn + prop_value" where
  "object_prototype_call f m arg =
     (if m = ''constructor'' then Inr (Plain (case arg of None \<Rightarrow> [] | Some options \<Rightarrow> options))
      else if m = ''toString'' \<or> m = ''toLocaleString'' then Inr (Str ''[object Object]'')
      else if m = ''valueOf'' then Inr (FactoryObj f)
      else if m = ''isPrototypeOf'' then Inr (Bool False)
      else if m = ''hasOwnProperty'' \<or> m = ''propertyIsEnumerable'' then
        (case to_property_key arg of
           Inl e \<Rightarrow> Inl e
         | Inr k \<Rightarrow> Inr (Bool (k \<in> fst ` set (f_memoized f))))
      else if m = ''__lookupGetter__'' \<or> m = ''__lookupSetter__'' then
        (case to_property_key arg of
           Inl e \<Rightarrow> Inl e
         | Inr k \<Rightarrow> Inr Undefined)
      else Inl TypeError)"

text \<open>
  The call \<open>factory[serviceName](arg)\<close>; \<open>arg = None\<close> is the call without argument.
  Calling a property that is \<open>undefined\<close> is a \<open>TypeError\<close> of the language.
\<close>

definition factory_call ::
  "sdk \<Rightarrow> client_factory \<Rightarrow> string \<Rightarrow> opts option \<Rightarrow> world
     \<Rightarrow> (exn + prop_value) \<times> client_factory \<times> world" where
  "factory_call sdk f serviceName arg w =
     (case factory_get f serviceName of
        Memoized cache \<Rightarrow>
          (case memoized_call sdk f serviceName cache arg w of
             (res, f1, w1) \<Rightarrow> (map_sum id Client res, f1, w1))
      | Inherited m \<Rightarrow> (object_prototype_call f m arg, f, w)
      | _ \<Rightarrow> (Inl TypeError, f, w))"

subsection \<open>createClientCache\<close>

record client_cache =
  c_factory :: client_factory
  c_instantiated :: "(string \<times> ref) list"

definition createClientCache ::
  "string option \<Rightarrow> CreateClientsFactoryOpts \<Rightarrow> world \<Rightarrow> client_cache \<times> world" where
  "createClientCache env_region clientOpts w =
     (let (factory, w1) = createClientFactory env_region clientOpts w
      in (\<lparr>c_factory = factory, c_instantiated = []\<rparr>, w1))"

text \<open>
  Reading \<open>cache[name]\<close>. A getter is defined for each key of the factory: it calls the
  memoized constructor of that key without argument and assigns the result to
  \<open>instantiated[name]\<close>. Then come the two fields, the members inherited from
  \<open>Object.prototype\<close>, and \<open>undefined\<close> for every other name.
\<close>

definition cache_get ::
  "sdk \<Rightarrow> client_cache \<Rightarrow> string \<Rightarrow> world \<Rightarrow> (exn + prop_value) \<times> client_cache \<times> world" where
  "cache_get sdk c name w =
     (case map_of (f_memoized (c_factory c)) name of
        Some cache \<Rightarrow>
          (case memoized_call sdk (c_factory c) name cache None w of
             (Inl e, f1, w1) \<Rightarrow> (Inl e, c\<lparr>c_factory := f1\<rparr>, w1)
           | (Inr client, f1, w1) \<Rightarrow>
               (Inr (Client client),
                c\<lparr>c_factory := f1, c_instantiated := AList.update name client (c_instantiated c)\<rparr>,
                w1))
      | None \<Rightarrow>
          if name = ''factory'' then (Inr (FactoryObj (c_factory c)), c, w)
          else if name = ''instantiated'' then (Inr (InstantiatedObj (c_instantiated c)), c, w)
          else if name \<in> set object_prototype then (Inr (Inherited name), c, w)
          else (Inr Undefined, c, w))"

text \<open>
  The call \<open>cache.factory[serviceName](arg)\<close>: the field \<open>factory\<close> is the factory the
  getters call, so the call acts on it.
\<close>

definition cache_factory_call ::
  "sdk \<Rightarrow> client_cache \<Rightarrow> string \<Rightarrow> opts option \<Rightarrow> world
     \<Rightarrow> (exn + prop_value) \<times> client_cache \<times> world" where
  "cache_factory_call sdk c serviceName arg w =
     (case factory_call sdk (c_factory c) serviceName arg w of
        (res, f1, w1) \<Rightarrow> (res, c\<lparr>c_factory := f1\<rparr>, w1))"

section \<open>Sequences of calls and the state they keep\<close>

text \<open>The calls \<open>factory[n](arg)\<close> of a list, one after the other, with every result.\<close>

fun run_calls ::
  "sdk \<Rightarrow> (string \<times> opts option) list \<Rightarrow> client_factory \<Rightarrow> world
     \<Rightarrow> (exn + prop_value) list \<times> client_factory \<times> world" where
  "run_calls sdk [] f w = ([], f, w)"
| "run_calls sdk ((n, arg) # cs) f w =
     (case factory_call sdk f n arg w of
        (res, f1, w1) \<Rightarrow>
          (case run_calls sdk cs f1 w1 of (rs, f2, w2) \<Rightarrow> (res # rs, f2, w2)))"

text \<open>The reads \<open>cache[n]\<close> of a list, one after the other, with every result.\<close>

fun run_reads ::
  "sdk \<Rightarrow> string list \<Rightarrow> client_cache \<Rightarrow> world
     \<Rightarrow> (exn + prop_value) list \<times> client_cache \<times> world" where
  "run_reads sdk [] c w = ([], c, w)"
| "run_reads sdk (n # ns) c w =
     (case cache_get sdk c n w of
        (res, c1, w1) \<Rightarrow>
          (case run_reads sdk ns c1 w1 of (rs, c2, w2) \<Rightarrow> (res # rs, c2, w2)))"

text \<open>The instance a memoized constructor holds for a key, if any.\<close>

definition memo_lookup :: "client_factory \<Rightarrow> string \<Rightarrow> string option \<Rightarrow> ref option" where
  "memo_lookup f n key =
     (case map_of (f_memoized f) n of None \<Rightarrow> None | Some cache \<Rightarrow> map_of cache key)"

text \<open>
  What holds of a factory in every state it reaches: a cached reference is allocated, and
  a constructor's cache holds an instance under one key only.
\<close>

definition memo_inv :: "client_factory \<Rightarrow> world \<Rightarrow> bool" where
  "memo_inv f w =
     (\<forall>n key r. memo_lookup f n key = Some r \<longrightarrow>
        r < length (heap w) \<and> (\<forall>key1. memo_lookup f n key1 = Some r \<longrightarrow> key1 = key))"

text \<open>
  What holds of a cache object in every state it reaches: an instance recorded in
  \<open>instantiated\<close> is the one the factory holds for the call without argument.
\<close>

definition cache_inv :: "client_cache \<Rightarrow> bool" where
  "cache_inv c =
     (\<forall>n a. map_of (c_instantiated c) n = Some a \<longrightarrow>
        memo_lookup (c_factory c) n (resolver None) = Some a)"

text \<open>\<open>service.config\<close>: a document client has no such property.\<close>

definition config_of :: "world \<Rightarrow> ref \<Rightarrow> config option" where
  "config_of w service =
     (case deref w service of
        Some (ServiceObj cls cfg) \<Rightarrow> cfg
      | _ \<Rightarrow> None)"

text \<open>A service object whose clock offset is the accessor of the global one.\<close>

definition synced :: "world \<Rightarrow> ref \<Rightarrow> bool" where
  "synced w service =
     (case deref w service of
        Some (ServiceObj cls (Some cfg)) \<Rightarrow> clockOffset cfg = GlobalAccessor
      | _ \<Rightarrow> False)"

definition is_update :: "event \<Rightarrow> bool" where
  "is_update e = (case e of ConfigUpdate d \<Rightarrow> True | Construct cls options \<Rightarrow> False)"

section \<open>A concrete scenario\<close>

text \<open>
  An SDK whose constructors never throw, one whose constructor throws on a chosen class,
  an initial state without clients, and a factory created in it with the region as default.
\<close>

definition never_throws :: sdk where
  "never_throws cls options w = None"

definition throws_on :: "sdk_class \<Rightarrow> string \<Rightarrow> sdk" where
  "throws_on c msg cls options w = (if cls = c then Some (SdkError msg) else None)"

definition initial_world :: world where
  "initial_world = \<lparr>heap = [], globalClockOffset = JNum 0, trace = []\<rparr>"

definition example_opts :: CreateClientsFactoryOpts where
  "example_opts = \<lparr>defaults = Some [(''region'', JStr ''us-east-1'')],
                    useGlobalConfigClock_opt = Some True\<rparr>"

text \<open>Options whose defaults set the clock offset.\<close>

definition clock_opts :: CreateClientsFactoryOpts where
  "clock_opts = \<lparr>defaults = Some [(''region'', JStr ''us-east-1''),
                                     (''systemClockOffset'', JNum 5)],
                  useGlobalConfigClock_opt = None\<rparr>"

definition example_factory :: client_factory where
  "example_factory = fst (createClientFactory None example_opts initial_world)"

definition example_world :: world where
  "example_world = snd (createClientFactory None example_opts initial_world)"

definition example_calls :: "(string \<times> opts option) list" where
  "example_calls =
     [(''s3'', Some [(''maxRetries'', JNum 3), (''endpoint'', JStr ''http://localhost'')]),
      (''sqs'', None),
      (''s3'', Some [(''endpoint'', JStr ''http://localhost''), (''maxRetries'', JNum 3)]),
      (''s3'', Some [(''maxRetries'', JNum 4)])]"

text \<open>
  A document client and an S3 client built by a factory that does not synchronise clocks,
  for the helper to be applied to by hand.
\<close>

definition unsynced_opts :: CreateClientsFactoryOpts where
  "unsynced_opts = \<lparr>defaults = None, useGlobalConfigClock_opt = None\<rparr>"

definition example_clients :: world where
  "example_clients =
     snd (snd (run_calls never_throws [(''documentclient'', None), (''s3'', None)]
                 (example_factory\<lparr>f_clientsOpts := unsynced_opts\<rparr>) example_world))"

text \<open>A cache object created in the initial state, and some reads of its properties.\<close>

definition example_cache :: client_cache where
  "example_cache = fst (createClientCache None example_opts initial_world)"



text \<open>The direct call \<open>cache.factory.s3()\<close> on that cache object, before any read.\<close>

definition example_direct :: "(exn + prop_value) \<times> client_cache \<times> world" where
  "example_direct = cache_factory_call never_throws example_cache ''s3'' None example_world"

section \<open>Auxiliary facts\<close>

subsection \<open>Object spread\<close>

lemma map_of_fold_update:
  "map_of (fold (\<lambda>(k, v). AList.update k v) xs base) = map_of base ++ map_of (rev xs)"
  by (induction xs arbitrary: base)
     (auto simp: update_conv' fun_eq_iff map_add_def split: option.splits)

lemma map_of_rev_distinct: "distinct (map fst xs) \<Longrightarrow> map_of (rev xs) = map_of xs"
  by (subst map_of_inject_set) (simp_all add: rev_map [symmetric])

lemma map_of_assign: "map_of (assign base over) = map_of base ++ map_of over"
  unfolding assign_def
  by (simp add: map_of_fold_update map_of_rev_distinct map_of_clearjunk)

lemma map_of_spread:
  "map_of (spread base over) = map_of base ++ (case over of None \<Rightarrow> Map.empty | Some ov \<Rightarrow> map_of ov)"
  by (simp add: spread_def map_of_assign split: option.splits)

subsection \<open>The SDK constructors and the memoized function body\<close>

lemma heap_useGlobalConfigClock [simp]:
  "length (heap (useGlobalConfigClock r w)) = length (heap w)"
  by (simp add: useGlobalConfigClock_def Let_def split: option.splits obj.splits)

lemma trace_useGlobalConfigClock [simp]:
  "trace (useGlobalConfigClock r w) = trace w"
  by (simp add: useGlobalConfigClock_def Let_def split: option.splits obj.splits)

lemma globalClockOffset_useGlobalConfigClock [simp]:
  "globalClockOffset (useGlobalConfigClock r w) = globalClockOffset w"
  by (simp add: useGlobalConfigClock_def Let_def split: option.splits obj.splits)

lemma new_client_Inr:
  "new_client sdk cls options w = (Inr r, w1) \<Longrightarrow>
     length (heap w) \<le> r \<and> r < length (heap w1) \<and> globalClockOffset w1 = globalClockOffset w
     \<and> trace w1 = trace w @ [Construct cls options] \<and> sdk cls options w = None"
  by (auto simp: new_client_def Let_def alloc_def split: option.splits if_splits)

lemma new_client_Inl:
  "new_client sdk cls options w = (Inl e, w1) \<Longrightarrow>
     sdk cls options w = Some e \<and> w1 = w\<lparr>trace := trace w @ [Construct cls options]\<rparr>"
  by (auto simp: new_client_def Let_def alloc_def split: option.splits if_splits)

lemma construct_Inr:
  "construct sdk f cls arg w = (Inr r, w1) \<Longrightarrow>
     length (heap w) \<le> r \<and> r < length (heap w1) \<and> globalClockOffset w1 = globalClockOffset w
     \<and> trace w1 = trace w @ [Construct cls (spread (f_defaults f) arg)]
     \<and> sdk cls (spread (f_defaults f) arg) w = None"
  by (auto simp: construct_def factories_call_def split: prod.splits sum.splits if_splits
           dest!: new_client_Inr)

lemma construct_Inl:
  "construct sdk f cls arg w = (Inl e, w1) \<Longrightarrow>
     sdk cls (spread (f_defaults f) arg) w = Some e
     \<and> w1 = w\<lparr>trace := trace w @ [Construct cls (spread (f_defaults f) arg)]\<rparr>"
  by (auto simp: construct_def factories_call_def split: prod.splits sum.splits if_splits
           dest!: new_client_Inl)

subsection \<open>One call of a memoized constructor\<close>

lemma factory_get_Memoized:
  "(factory_get f n = Memoized cache) = (map_of (f_memoized f) n = Some cache)"
  by (auto simp: factory_get_def split: option.splits)

lemma factory_get_not_own:
  "map_of (f_memoized f) n = None \<Longrightarrow>
     factory_get f n = (if n \<in> set object_prototype then Inherited n else Undefined)"
  by (simp add: factory_get_def)

lemma object_prototype_call_no_client: "object_prototype_call f m arg \<noteq> Inr (Client r)"
  by (simp add: object_prototype_call_def split: sum.splits)

lemma memoized_call_hit:
  "map_of factories n = Some cls \<Longrightarrow> map_of (f_memoized f) n = Some cache \<Longrightarrow>
   map_of cache (resolver arg) = Some r \<Longrightarrow>
     memoized_call sdk f n cache arg w = (Inr r, f, w)"
  by (simp add: memoized_call_def memoize_def update_triv)

lemma memoized_call_miss:
  "map_of factories n = Some cls \<Longrightarrow> map_of (f_memoized f) n = Some cache \<Longrightarrow>
   map_of cache (resolver arg) = None \<Longrightarrow>
     memoized_call sdk f n cache arg w =
       (case construct sdk f cls arg w of
          (Inl e, w1) \<Rightarrow> (Inl e, f, w1)
        | (Inr r, w1) \<Rightarrow>
            (Inr r,
             f\<lparr>f_memoized := AList.update n (AList.update (resolver arg) r cache) (f_memoized f)\<rparr>,
             w1))"
  by (simp add: memoized_call_def memoize_def update_triv split: prod.splits sum.splits)

lemma factory_call_memoized:
  "map_of (f_memoized f) n = Some cache \<Longrightarrow>
     factory_call sdk f n arg w =
       (case memoized_call sdk f n cache arg w of
          (res, f1, w1) \<Rightarrow> (map_sum id Client res, f1, w1))"
  by (simp add: factory_call_def factory_get_def)

lemma factory_call_unknown:
  assumes "map_of (f_memoized f) n = None \<or> map_of factories n = None"
  shows "\<exists>res. factory_call sdk f n arg w = (res, f, w) \<and> (\<forall>r. res \<noteq> Inr (Client r))"
proof (cases "map_of (f_memoized f) n")
  case None
  then show ?thesis
    by (simp add: factory_call_def factory_get_not_own object_prototype_call_no_client)
next
  case (Some cache)
  with assms have "map_of factories n = None" by simp
  with Some show ?thesis
    by (simp add: factory_call_memoized memoized_call_def)
qed

lemma factory_call_hit:
  "factory_get f n = Memoized cache \<Longrightarrow> map_of factories n = Some cls \<Longrightarrow>
   map_of cache (resolver arg) = Some r \<Longrightarrow>
     factory_call sdk f n arg w = (Inr (Client r), f, w)"
  by (simp add: factory_get_Memoized factory_call_memoized memoized_call_hit)

lemma factory_call_miss:
  "factory_get f n = Memoized cache \<Longrightarrow> map_of factories n = Some cls \<Longrightarrow>
   map_of cache (resolver arg) = None \<Longrightarrow>
     factory_call sdk f n arg w =
       (case construct sdk f cls arg w of
          (Inl e, w1) \<Rightarrow> (Inl e, f, w1)
        | (Inr r, w1) \<Rightarrow>
            (Inr (Client r),
             f\<lparr>f_memoized := AList.update n (AList.update (resolver arg) r cache) (f_memoized f)\<rparr>,
             w1))"
  by (simp add: factory_get_Memoized factory_call_memoized memoized_call_miss
           split: prod.splits sum.splits)

lemma memo_lookup_update:
  "memo_lookup (f\<lparr>f_memoized := AList.update n c (f_memoized f)\<rparr>) m k =
     (if m = n then map_of c k else memo_lookup f m k)"
  by (simp add: memo_lookup_def update_conv')

lemma factory_call_step:
  assumes "factory_call sdk f n arg w = (res, f1, w1)"
  shows "length (heap w) \<le> length (heap w1)"
    and "globalClockOffset w1 = globalClockOffset w"
    and "f_defaults f1 = f_defaults f"
    and "f_clientsOpts f1 = f_clientsOpts f"
    and "map fst (f_memoized f1) = map fst (f_memoized f)"
    and "\<And>a. res = Inr (Client a) \<Longrightarrow> memo_lookup f1 n (resolver arg) = Some a"
    and "\<And>m k r. memo_lookup f m k = Some r \<Longrightarrow> memo_lookup f1 m k = Some r"
    and "\<And>m k r. memo_lookup f1 m k = Some r \<Longrightarrow>
           memo_lookup f m k = Some r \<or>
           (m = n \<and> k = resolver arg \<and> res = Inr (Client r) \<and> length (heap w) \<le> r \<and> r < length (heap w1))"
proof -
  consider (unknown) "map_of (f_memoized f) n = None \<or> map_of factories n = None"
    | (hit) cache cls r where "factory_get f n = Memoized cache" "map_of factories n = Some cls"
        "map_of cache (resolver arg) = Some r"
    | (miss) cache cls where "factory_get f n = Memoized cache" "map_of factories n = Some cls"
        "map_of cache (resolver arg) = None"
    by (cases "map_of (f_memoized f) n"; cases "map_of factories n";
        cases "map_of (the (map_of (f_memoized f) n)) (resolver arg)")
       (auto simp: factory_get_Memoized)
  then have "length (heap w) \<le> length (heap w1) \<and> globalClockOffset w1 = globalClockOffset w
      \<and> f_defaults f1 = f_defaults f \<and> f_clientsOpts f1 = f_clientsOpts f
      \<and> map fst (f_memoized f1) = map fst (f_memoized f)
      \<and> (\<forall>a. res = Inr (Client a) \<longrightarrow> memo_lookup f1 n (resolver arg) = Some a)
      \<and> (\<forall>m k r. memo_lookup f m k = Some r \<longrightarrow> memo_lookup f1 m k = Some r)
      \<and> (\<forall>m k r. memo_lookup f1 m k = Some r \<longrightarrow>
           memo_lookup f m k = Some r \<or>
           (m = n \<and> k = resolver arg \<and> res = Inr (Client r) \<and> length (heap w) \<le> r \<and> r < length (heap w1)))"
  proof cases
    case unknown
    from factory_call_unknown [OF this, of sdk arg w] assms show ?thesis by auto
  next
    case hit
    from factory_call_hit [OF hit, of sdk w] assms
    have "res = Inr (Client r)" "f1 = f" "w1 = w" by simp_all
    with hit show ?thesis by (simp add: memo_lookup_def factory_get_Memoized)
  next
    case miss
    note fc = factory_call_miss [OF miss, of sdk w]
    show ?thesis
    proof (cases "construct sdk f cls arg w")
      case (Pair cres cw)
      show ?thesis
      proof (cases cres)
        case (Inl e)
        with Pair fc assms have "res = Inl e" "f1 = f" "w1 = cw" by simp_all
        moreover from construct_Inl [of sdk f cls arg w e cw] Pair Inl
        have "cw = w\<lparr>trace := trace w @ [Construct cls (spread (f_defaults f) arg)]\<rparr>" by simp
        ultimately show ?thesis by simp
      next
        case (Inr a)
        with Pair fc assms have r: "res = Inr (Client a)" "w1 = cw"
          "f1 = f\<lparr>f_memoized := AList.update n (AList.update (resolver arg) a cache) (f_memoized f)\<rparr>"
          by simp_all
        from construct_Inr [of sdk f cls arg w a cw] Pair Inr
        have c: "length (heap w) \<le> a" "a < length (heap cw)"
          "globalClockOffset cw = globalClockOffset w" by simp_all
        from miss have l: "\<And>k. memo_lookup f n k = map_of cache k"
          by (simp add: memo_lookup_def factory_get_Memoized)
        from miss(1) have keys:
          "map fst (AList.update n (AList.update (resolver arg) a cache) (f_memoized f))
             = map fst (f_memoized f)"
          by (simp add: factory_get_Memoized update_keys map_of_eq_None_iff [symmetric]
                del: map_of_eq_None_iff)
        show ?thesis using c miss(3) keys unfolding r
          by (auto simp: memo_lookup_update l update_conv')
      qed
    qed
  qed
  then show "length (heap w) \<le> length (heap w1)"
    and "globalClockOffset w1 = globalClockOffset w"
    and "f_defaults f1 = f_defaults f"
    and "f_clientsOpts f1 = f_clientsOpts f"
    and "map fst (f_memoized f1) = map fst (f_memoized f)"
    and "\<And>a. res = Inr (Client a) \<Longrightarrow> memo_lookup f1 n (resolver arg) = Some a"
    and "\<And>m k r. memo_lookup f m k = Some r \<Longrightarrow> memo_lookup f1 m k = Some r"
    and "\<And>m k r. memo_lookup f1 m k = Some r \<Longrightarrow>
           memo_lookup f m k = Some r \<or>
           (m = n \<and> k = resolver arg \<and> res = Inr (Client r) \<and> length (heap w) \<le> r \<and> r < length (heap w1))"
    by blast+
qed

lemma memo_inv_step:
  assumes "factory_call sdk f n arg w = (res, f1, w1)" and "memo_inv f w"
  shows "memo_inv f1 w1"
  unfolding memo_inv_def
proof (intro allI impI)
  fix m key r
  assume a: "memo_lookup f1 m key = Some r"
  note st = factory_call_step [OF assms(1)]
  from assms(2) have inv: "\<And>n key r. memo_lookup f n key = Some r \<Longrightarrow> r < length (heap w)"
    and inj: "\<And>n key key1 r. memo_lookup f n key = Some r \<Longrightarrow> memo_lookup f n key1 = Some r \<Longrightarrow> key1 = key"
    unfolding memo_inv_def by blast+
  have "r < length (heap w1)"
    using st(8) [OF a] inv st(1) by (metis less_le_trans)
  moreover have "key1 = key" if b: "memo_lookup f1 m key1 = Some r" for key1
    using st(8) [OF a] st(8) [OF b] inv inj by (metis not_le)
  ultimately show "r < length (heap w1) \<and> (\<forall>key1. memo_lookup f1 m key1 = Some r \<longrightarrow> key1 = key)"
    by blast
qed

subsection \<open>Sequences of calls\<close>

lemma run_calls_props:
  "memo_inv f w \<Longrightarrow> run_calls sdk cs f w = (rs, f', w') \<Longrightarrow>
     memo_inv f' w' \<and> length rs = length cs
     \<and> (\<forall>m k r. memo_lookup f m k = Some r \<longrightarrow> memo_lookup f' m k = Some r)
     \<and> (\<forall>i<length cs. \<forall>a. rs ! i = Inr (Client a) \<longrightarrow>
           memo_lookup f' (fst (cs ! i)) (resolver (snd (cs ! i))) = Some a)"
proof (induction cs arbitrary: f w rs f' w')
  case Nil
  then show ?case by simp
next
  case (Cons c cs)
  obtain n arg where c: "c = (n, arg)" by (cases c)
  obtain res f1 w1 where fc: "factory_call sdk f n arg w = (res, f1, w1)"
    by (cases "factory_call sdk f n arg w")
  obtain rs1 f2 w2 where rc: "run_calls sdk cs f1 w1 = (rs1, f2, w2)"
    by (cases "run_calls sdk cs f1 w1")
  from Cons.prems(2) c fc rc have eq: "rs = res # rs1" "f' = f2" "w' = w2" by simp_all
  note st = factory_call_step [OF fc]
  from memo_inv_step [OF fc Cons.prems(1)] have inv1: "memo_inv f1 w1" .
  from Cons.IH [OF inv1 rc]
  have ih: "memo_inv f2 w2" "length rs1 = length cs"
    "\<And>m k r. memo_lookup f1 m k = Some r \<Longrightarrow> memo_lookup f2 m k = Some r"
    "\<And>i a. i < length cs \<Longrightarrow> rs1 ! i = Inr (Client a) \<Longrightarrow>
        memo_lookup f2 (fst (cs ! i)) (resolver (snd (cs ! i))) = Some a"
    by blast+
  have "memo_lookup f' (fst ((c # cs) ! i)) (resolver (snd ((c # cs) ! i))) = Some a"
    if "i < length (c # cs)" "rs ! i = Inr (Client a)" for i a
  proof (cases i)
    case 0
    with that eq have "res = Inr (Client a)" by simp
    from ih(3) [OF st(6) [OF this]] show ?thesis using 0 c eq by simp
  next
    case (Suc k)
    with that eq ih(4) [of k a] show ?thesis by simp
  qed
  moreover have "memo_lookup f' m k = Some r" if "memo_lookup f m k = Some r" for m k r
    using ih(3) [OF st(7) [OF that]] eq by simp
  ultimately show ?case using ih(1,2) eq by simp
qed

lemma createClientFactory_props:
  assumes "createClientFactory env co w0 = (f, w)"
  shows "f_defaults f = (case defaults co of None \<Rightarrow> FACTORY_DEFAULTS env | Some d \<Rightarrow> d)"
    and "f_clientsOpts f = co"
    and "f_memoized f = map (\<lambda>(n, v). (n, [])) factories"
    and "w = config_update (f_defaults f) w0"
  using assms by (auto simp: createClientFactory_def Let_def)

lemma map_of_empty_caches:
  "map_of (map (\<lambda>(n, v). (n, [])) xs) n = (if n \<in> fst ` set xs then Some [] else None)"
  by (induction xs) auto

lemma createClientFactory_lookup:
  "createClientFactory env co w0 = (f, w) \<Longrightarrow> memo_lookup f n k = None"
  by (simp add: createClientFactory_props(3) memo_lookup_def map_of_empty_caches)

lemma createClientFactory_get:
  "createClientFactory env co w0 = (f, w) \<Longrightarrow>
     factory_get f n =
       (if n \<in> fst ` set factories then Memoized []
        else if n \<in> set object_prototype then Inherited n else Undefined)"
  by (simp add: createClientFactory_props(3) factory_get_def map_of_empty_caches)

lemma createClientFactory_inv:
  "createClientFactory env co w0 = (f, w) \<Longrightarrow> memo_inv f w"
  by (simp add: memo_inv_def createClientFactory_lookup)


lemma factory_call_trace:
  assumes "factory_call sdk f n arg w = (res, f1, w1)"
  shows "trace w1 = trace w \<or>
         (\<exists>cls. map_of factories n = Some cls
            \<and> trace w1 = trace w @ [Construct cls (spread (f_defaults f) arg)])"
proof -
  consider (unknown) "map_of (f_memoized f) n = None \<or> map_of factories n = None"
    | (hit) cache cls r where "factory_get f n = Memoized cache" "map_of factories n = Some cls"
        "map_of cache (resolver arg) = Some r"
    | (miss) cache cls where "factory_get f n = Memoized cache" "map_of factories n = Some cls"
        "map_of cache (resolver arg) = None"
    by (cases "map_of (f_memoized f) n"; cases "map_of factories n";
        cases "map_of (the (map_of (f_memoized f) n)) (resolver arg)")
       (auto simp: factory_get_Memoized)
  then show ?thesis
  proof cases
    case unknown
    from factory_call_unknown [OF this, of sdk arg w] assms show ?thesis by auto
  next
    case hit
    from factory_call_hit [OF hit, of sdk w] assms show ?thesis by simp
  next
    case miss
    obtain cres cw where c: "construct sdk f cls arg w = (cres, cw)"
      by (cases "construct sdk f cls arg w")
    with factory_call_miss [OF miss, of sdk w] assms have "w1 = cw"
      by (cases cres) simp_all
    moreover have "trace cw = trace w @ [Construct cls (spread (f_defaults f) arg)]"
      using c construct_Inl [of sdk f cls arg w _ cw] construct_Inr [of sdk f cls arg w _ cw]
      by (cases cres) simp_all
    ultimately show ?thesis using miss(2) by simp
  qed
qed

lemma factory_call_no_update:
  "factory_call sdk f n arg w = (res, f1, w1) \<Longrightarrow>
     \<exists>ds. trace w1 = trace w @ ds \<and> filter is_update ds = []"
  by (drule factory_call_trace) (auto simp: is_update_def)

lemma run_calls_frame:
  "run_calls sdk cs f w = (rs, f', w') \<Longrightarrow>
     globalClockOffset w' = globalClockOffset w \<and> f_defaults f' = f_defaults f
     \<and> (\<exists>ds. trace w' = trace w @ ds \<and> filter is_update ds = [])"
proof (induction cs arbitrary: f w rs f' w')
  case Nil
  then show ?case by simp
next
  case (Cons c cs)
  obtain n arg where c: "c = (n, arg)" by (cases c)
  obtain res f1 w1 where fc: "factory_call sdk f n arg w = (res, f1, w1)"
    by (cases "factory_call sdk f n arg w")
  obtain rs1 where rc: "run_calls sdk cs f1 w1 = (rs1, f', w')"
    using Cons.prems c fc by (cases "run_calls sdk cs f1 w1") auto
  from factory_call_no_update [OF fc] obtain ds1
    where d1: "trace w1 = trace w @ ds1" "filter is_update ds1 = []" by blast
  from Cons.IH [OF rc] obtain ds2
    where d2: "trace w' = trace w1 @ ds2" "filter is_update ds2 = []"
      and fr: "globalClockOffset w' = globalClockOffset w1" "f_defaults f' = f_defaults f1" by blast
  from d1 d2 have "trace w' = trace w @ (ds1 @ ds2) \<and> filter is_update (ds1 @ ds2) = []" by simp
  then show ?case using fr factory_call_step(2,3) [OF fc] by metis
qed

lemma resolver_empty: "resolver (Some []) = Some ''{}''"
  by (simp add: resolver_def List.map_filter_simps)

lemma spread_empty: "spread base (Some []) = spread base None"
  by (simp add: spread_def)


subsection \<open>The clock accessor\<close>

lemma useGlobalConfigClock_no_config:
  "config_of w (case deref w r of Some (DocumentClientObj s) \<Rightarrow> s | _ \<Rightarrow> r) = None \<Longrightarrow>
     useGlobalConfigClock r w = w"
  by (auto simp: useGlobalConfigClock_def config_of_def Let_def split: option.splits obj.splits)

lemma useGlobalConfigClock_synced:
  "config_of w (case deref w r of Some (DocumentClientObj s) \<Rightarrow> s | _ \<Rightarrow> r) \<noteq> None \<Longrightarrow>
     synced (useGlobalConfigClock r w) (case deref w r of Some (DocumentClientObj s) \<Rightarrow> s | _ \<Rightarrow> r)"
  by (auto simp: useGlobalConfigClock_def config_of_def synced_def deref_def Let_def
           split: option.splits obj.splits if_splits)

lemma useGlobalConfigClock_keeps_synced:
  "synced w t \<Longrightarrow> synced (useGlobalConfigClock r w) t"
  by (auto simp: useGlobalConfigClock_def synced_def deref_def Let_def nth_list_update
           split: option.splits obj.splits if_splits)

lemma global_clock_useGlobalConfigClock:
  "global_clock (useGlobalConfigClock r w) = global_clock w"
  by (simp add: global_clock_def)

lemma synced_read: "synced u t \<Longrightarrow> read_clock u t = Some (global_clock u)"
  by (auto simp: synced_def read_clock_def global_clock_def split: option.splits obj.splits)

lemma synced_write:
  "synced u t \<Longrightarrow> write_clock t v u = set_global_clock v u"
  by (auto simp: synced_def write_clock_def set_global_clock_def split: option.splits obj.splits)

lemma synced_set_global: "synced u t \<Longrightarrow> synced (set_global_clock v u) t"
  by (auto simp: synced_def set_global_clock_def deref_def split: option.splits obj.splits if_splits)

lemma global_clock_set [simp]: "global_clock (set_global_clock v u) = v"
  by (simp add: global_clock_def set_global_clock_def)

subsection \<open>Reads on the cache object\<close>

lemma factory_call_Inr_known:
  "factory_call sdk f n arg w = (Inr (Client a), f1, w1) \<Longrightarrow>
     \<exists>cache cls. factory_get f n = Memoized cache \<and> map_of factories n = Some cls"
  using factory_call_unknown [of f n sdk arg w]
  by (cases "map_of (f_memoized f) n"; cases "map_of factories n")
     (auto simp: factory_get_Memoized)

lemma memo_lookup_hit:
  "memo_lookup f n (resolver arg) = Some r \<Longrightarrow> map_of factories n = Some cls \<Longrightarrow>
     factory_call sdk f n arg w = (Inr (Client r), f, w)"
  by (cases "map_of (f_memoized f) n")
     (auto simp: memo_lookup_def factory_get_Memoized intro: factory_call_hit)

lemma own_key_iff:
  "(n \<in> set (map fst (f_memoized f))) = (\<exists>cache. map_of (f_memoized f) n = Some cache)"
  using map_of_eq_None_iff [of "f_memoized f" n] by auto

lemma cache_get_service:
  assumes "n \<in> set (map fst (f_memoized (c_factory c)))"
    and "factory_call sdk (c_factory c) n None w = (res, f1, w1)"
  shows "(\<exists>e. res = Inl e \<and> cache_get sdk c n w = (Inl e, c\<lparr>c_factory := f1\<rparr>, w1))
     \<or> (\<exists>r. res = Inr (Client r) \<and>
          cache_get sdk c n w =
            (Inr (Client r),
             c\<lparr>c_factory := f1, c_instantiated := AList.update n r (c_instantiated c)\<rparr>, w1))"
proof -
  from assms(1) obtain cache where o: "map_of (f_memoized (c_factory c)) n = Some cache"
    unfolding own_key_iff by blast
  obtain mres mf mw where m: "memoized_call sdk (c_factory c) n cache None w = (mres, mf, mw)"
    by (cases "memoized_call sdk (c_factory c) n cache None w")
  with factory_call_memoized [OF o, of sdk None w] assms(2)
  have "res = map_sum id Client mres" "f1 = mf" "w1 = mw" by simp_all
  with o m show ?thesis by (cases mres) (simp_all add: cache_get_def)
qed

lemma cache_get_other:
  assumes "n \<notin> set (map fst (f_memoized (c_factory c)))"
  shows "cache_get sdk c n w =
     (if n = ''factory'' then (Inr (FactoryObj (c_factory c)), c, w)
      else if n = ''instantiated'' then (Inr (InstantiatedObj (c_instantiated c)), c, w)
      else if n \<in> set object_prototype then (Inr (Inherited n), c, w)
      else (Inr Undefined, c, w))"
proof -
  from assms have "map_of (f_memoized (c_factory c)) n = None"
    unfolding own_key_iff by simp
  then show ?thesis by (simp add: cache_get_def)
qed

lemma cache_get_step:
  assumes "cache_get sdk c n w = (res, c1, w1)"
  shows "map fst (f_memoized (c_factory c1)) = map fst (f_memoized (c_factory c))"
    and "\<And>m k r. memo_lookup (c_factory c) m k = Some r \<Longrightarrow> memo_lookup (c_factory c1) m k = Some r"
    and "\<And>a. res = Inr (Client a) \<Longrightarrow>
           memo_lookup (c_factory c1) n (resolver None) = Some a
           \<and> map_of (c_instantiated c1) n = Some a
           \<and> (\<exists>cls. map_of factories n = Some cls)
           \<and> n \<in> set (map fst (f_memoized (c_factory c)))"
    and "\<And>m a. map_of (c_instantiated c1) m = Some a \<Longrightarrow>
           map_of (c_instantiated c) m = Some a \<or> (m = n \<and> res = Inr (Client a))"
    and "\<And>m a. map_of (c_instantiated c) m = Some a \<Longrightarrow> m \<noteq> n \<Longrightarrow>
           map_of (c_instantiated c1) m = Some a"
proof -
  have "map fst (f_memoized (c_factory c1)) = map fst (f_memoized (c_factory c))
    \<and> (\<forall>m k r. memo_lookup (c_factory c) m k = Some r \<longrightarrow> memo_lookup (c_factory c1) m k = Some r)
    \<and> (\<forall>a. res = Inr (Client a) \<longrightarrow>
           memo_lookup (c_factory c1) n (resolver None) = Some a
           \<and> map_of (c_instantiated c1) n = Some a
           \<and> (\<exists>cls. map_of factories n = Some cls)
           \<and> n \<in> set (map fst (f_memoized (c_factory c))))
    \<and> (\<forall>m a. map_of (c_instantiated c1) m = Some a \<longrightarrow>
           map_of (c_instantiated c) m = Some a \<or> (m = n \<and> res = Inr (Client a)))
    \<and> (\<forall>m a. map_of (c_instantiated c) m = Some a \<longrightarrow> m \<noteq> n \<longrightarrow>
           map_of (c_instantiated c1) m = Some a)"
  proof (cases "n \<in> set (map fst (f_memoized (c_factory c)))")
    case False
    from cache_get_other [OF False, of sdk w] assms show ?thesis
      by (auto split: if_splits)
  next
    case True
    obtain fres f1 fw where fc: "factory_call sdk (c_factory c) n None w = (fres, f1, fw)"
      by (cases "factory_call sdk (c_factory c) n None w")
    note st = factory_call_step [OF fc]
    from cache_get_service [OF True fc] show ?thesis
    proof (elim disjE exE conjE)
      fix e
      assume "fres = Inl e" "cache_get sdk c n w = (Inl e, c\<lparr>c_factory := f1\<rparr>, fw)"
      with assms have "res = Inl e" "c1 = c\<lparr>c_factory := f1\<rparr>" by simp_all
      with st(5,7) show ?thesis by simp
    next
      fix r
      assume Inr: "fres = Inr (Client r)"
        and "cache_get sdk c n w =
          (Inr (Client r),
           c\<lparr>c_factory := f1, c_instantiated := AList.update n r (c_instantiated c)\<rparr>, fw)"
      with assms have r: "res = Inr (Client r)"
        "c1 = c\<lparr>c_factory := f1, c_instantiated := AList.update n r (c_instantiated c)\<rparr>"
        by simp_all
      from factory_call_Inr_known [of sdk "c_factory c" n None w r f1 fw] fc Inr
      obtain cls where "map_of factories n = Some cls" by auto
      with st(5,7) st(6) [of r] Inr True show ?thesis unfolding r
        by (auto simp: update_conv')
    qed
  qed
  then show "map fst (f_memoized (c_factory c1)) = map fst (f_memoized (c_factory c))"
    and "\<And>m k r. memo_lookup (c_factory c) m k = Some r \<Longrightarrow> memo_lookup (c_factory c1) m k = Some r"
    and "\<And>a. res = Inr (Client a) \<Longrightarrow>
           memo_lookup (c_factory c1) n (resolver None) = Some a
           \<and> map_of (c_instantiated c1) n = Some a
           \<and> (\<exists>cls. map_of factories n = Some cls)
           \<and> n \<in> set (map fst (f_memoized (c_factory c)))"
    and "\<And>m a. map_of (c_instantiated c1) m = Some a \<Longrightarrow>
           map_of (c_instantiated c) m = Some a \<or> (m = n \<and> res = Inr (Client a))"
    and "\<And>m a. map_of (c_instantiated c) m = Some a \<Longrightarrow> m \<noteq> n \<Longrightarrow>
           map_of (c_instantiated c1) m = Some a"
    by blast+
qed

lemma cache_inv_step:
  assumes "cache_get sdk c n w = (res, c1, w1)" and "cache_inv c"
  shows "cache_inv c1"
  unfolding cache_inv_def
proof (intro allI impI)
  fix m a
  assume a: "map_of (c_instantiated c1) m = Some a"
  note st = cache_get_step [OF assms(1)]
  from st(4) [OF a] show "memo_lookup (c_factory c1) m (resolver None) = Some a"
  proof
    assume "map_of (c_instantiated c) m = Some a"
    with assms(2) have "memo_lookup (c_factory c) m (resolver None) = Some a"
      unfolding cache_inv_def by blast
    then show ?thesis by (rule st(2))
  next
    assume "m = n \<and> res = Inr (Client a)"
    with st(3) [of a] show ?thesis by simp
  qed
qed

lemma cache_get_hit:
  assumes "memo_lookup (c_factory c) n (resolver None) = Some a"
    and "map_of factories n = Some cls"
  shows "cache_get sdk c n w =
     (Inr (Client a), c\<lparr>c_instantiated := AList.update n a (c_instantiated c)\<rparr>, w)"
proof -
  from assms(1) have k: "n \<in> set (map fst (f_memoized (c_factory c)))"
    by (auto simp: memo_lookup_def split: option.splits dest: map_of_SomeD intro: rev_image_eqI)
  from memo_lookup_hit [OF assms, of sdk w]
  have "factory_call sdk (c_factory c) n None w = (Inr (Client a), c_factory c, w)" .
  from cache_get_service [OF k this] show ?thesis by simp
qed


lemma run_reads_props:
  "cache_inv c \<Longrightarrow> run_reads sdk ns c w = (rs, c', w') \<Longrightarrow>
     cache_inv c' \<and> length rs = length ns
     \<and> map fst (f_memoized (c_factory c')) = map fst (f_memoized (c_factory c))
     \<and> (\<forall>m k r. memo_lookup (c_factory c) m k = Some r \<longrightarrow> memo_lookup (c_factory c') m k = Some r)
     \<and> (\<forall>m. map_of (c_instantiated c) m \<noteq> None \<longrightarrow> map_of (c_instantiated c') m \<noteq> None)"
proof (induction ns arbitrary: c w rs)
  case Nil
  then show ?case by simp
next
  case (Cons m ns)
  obtain res c1 w1 where cg: "cache_get sdk c m w = (res, c1, w1)"
    by (cases "cache_get sdk c m w")
  obtain rs1 where rr: "run_reads sdk ns c1 w1 = (rs1, c', w')" and rs: "rs = res # rs1"
    using Cons.prems(2) cg by (cases "run_reads sdk ns c1 w1") auto
  note st = cache_get_step [OF cg]
  from Cons.IH [OF cache_inv_step [OF cg Cons.prems(1)] rr]
  have ih: "cache_inv c'" "length rs1 = length ns"
    "map fst (f_memoized (c_factory c')) = map fst (f_memoized (c_factory c1))"
    "\<And>m k r. memo_lookup (c_factory c1) m k = Some r \<Longrightarrow> memo_lookup (c_factory c') m k = Some r"
    "\<And>m. map_of (c_instantiated c1) m \<noteq> None \<Longrightarrow> map_of (c_instantiated c') m \<noteq> None"
    by blast+
  have "map_of (c_instantiated c') k \<noteq> None" if "map_of (c_instantiated c) k \<noteq> None" for k
  proof -
    from that obtain a where a: "map_of (c_instantiated c) k = Some a" by blast
    have "map_of (c_instantiated c1) k \<noteq> None"
    proof (cases "k = m")
      case False
      with st(5) [OF a] show ?thesis by simp
    next
      case True
      from a Cons.prems(1) have "memo_lookup (c_factory c) m (resolver None) = Some a"
        unfolding cache_inv_def True by blast
      then have ks: "m \<in> set (map fst (f_memoized (c_factory c)))"
        by (auto simp: memo_lookup_def split: option.splits dest: map_of_SomeD intro: rev_image_eqI)
      obtain fres f1 fw where fc: "factory_call sdk (c_factory c) m None w = (fres, f1, fw)"
        by (cases "factory_call sdk (c_factory c) m None w")
      from cache_get_service [OF ks fc] cg True a show ?thesis
        by (auto simp: update_conv')
    qed
    then show ?thesis by (rule ih(5))
  qed
  with ih st(1,2) rs show ?case by simp
qed

lemma createClientCache_props:
  assumes "createClientCache env co w0 = (c, w)"
  shows "createClientFactory env co w0 = (c_factory c, w)"
    and "c_instantiated c = []"
    and "cache_inv c"
  using assms by (auto simp: createClientCache_def cache_inv_def split: prod.splits)



subsection \<open>The order of the keys\<close>

lemma sort_remdups_keys:
  assumes "set xs = set ys"
  shows "sort (remdups (map fst xs)) = sort (remdups (map fst ys))"
proof -
  have "set (map fst xs) = set (map fst ys)" using assms by simp
  then have "set (sort (remdups (map fst xs))) = set (sort (remdups (map fst ys)))" by simp
  then show ?thesis
    by (intro sorted_distinct_set_unique) simp_all
qed

lemma map_of_stringified:
  "map_of (map (\<lambda>(k, v). (k, g v)) xs) = map_option g \<circ> map_of xs"
  by (induction xs) (auto simp: fun_eq_iff)

lemma stableStringify_key_order:
  assumes "distinct (map fst xs)" and "distinct (map fst ys)" and "set xs = set ys"
  shows "stableStringify (JObj xs) = stableStringify (JObj ys)"
proof -
  from assms have "map_of xs = map_of ys" by (simp add: map_of_inject_set)
  then show ?thesis
    by (simp add: sort_remdups_keys [OF assms(3)] map_of_stringified Let_def)
qed

lemma resolver_key_order:
  "distinct (map fst xs) \<Longrightarrow> distinct (map fst ys) \<Longrightarrow> set xs = set ys \<Longrightarrow>
     resolver (Some xs) = resolver (Some ys)"
  using stableStringify_key_order [of xs ys] by (simp add: resolver_def del: stableStringify.simps)

subsection \<open>The concrete scenario\<close>

lemma example_created:
  "createClientFactory None example_opts initial_world = (example_factory, example_world)"
  by (simp add: example_factory_def example_world_def)

lemma example_results:
  "fst (run_calls never_throws example_calls example_factory example_world)
     = [Inr (Client 0), Inr (Client 1), Inr (Client 0), Inr (Client 2)]"
  by code_simp

lemma example_get: "factory_get example_factory ''documentclient'' = Memoized []"
  by code_simp

lemma example_cache_created:
  "createClientCache None example_opts initial_world = (example_cache, example_world)"
  by (simp add: example_cache_def example_world_def createClientCache_def split: prod.splits)


section \<open>The memoized constructors\<close>

text \<open>
  C1. In any sequence of calls on the memoized constructors of one factory, two calls to
  the same service that both return an instance return the identical instance exactly
  when their arguments have the same memoization key, that is, when they canonicalize
  identically under the stable serialization. That serialization does not depend on the
  order of the keys: two objects with the same properties have the same key.
\<close>

theorem memoized_identical_iff_same_key:
  assumes "createClientFactory env co w0 = (f, w)"
    and "run_calls sdk cs f w = (rs, f', w')"
    and "i < length cs" and "j < length cs"
    and "cs ! i = (n, A)" and "cs ! j = (n, B)"
    and "rs ! i = Inr (Client a)" and "rs ! j = Inr (Client b)"
  shows "(a = b) = (resolver A = resolver B)
     \<and> (\<forall>xs ys. distinct (map fst xs) \<and> distinct (map fst ys) \<and> set xs = set ys \<longrightarrow>
           resolver (Some xs) = resolver (Some ys))"
proof -
  from run_calls_props [OF createClientFactory_inv [OF assms(1)] assms(2)]
  have inv: "memo_inv f' w'"
    and res: "\<And>i a. i < length cs \<Longrightarrow> rs ! i = Inr (Client a) \<Longrightarrow>
        memo_lookup f' (fst (cs ! i)) (resolver (snd (cs ! i))) = Some a"
    by blast+
  from res [OF assms(3) assms(7)] assms(5) have la: "memo_lookup f' n (resolver A) = Some a" by simp
  from res [OF assms(4) assms(8)] assms(6) have lb: "memo_lookup f' n (resolver B) = Some b" by simp
  have "(a = b) = (resolver A = resolver B)"
  proof
    assume "a = b"
    with inv la lb show "resolver A = resolver B" unfolding memo_inv_def by blast
  next
    assume "resolver A = resolver B"
    with la lb show "a = b" by simp
  qed
  then show ?thesis using resolver_key_order by blast
qed

theorem memoized_identical_iff_same_key_witness:
  "fst (run_calls never_throws example_calls example_factory example_world)
     = [Inr (Client 0), Inr (Client 1), Inr (Client 0), Inr (Client 2)]
   \<and> resolver (Some [(''maxRetries'', JNum 3), (''endpoint'', JStr ''http://localhost'')])
       = resolver (Some [(''endpoint'', JStr ''http://localhost''), (''maxRetries'', JNum 3)])
   \<and> resolver (Some [(''maxRetries'', JNum 3), (''endpoint'', JStr ''http://localhost'')])
       \<noteq> resolver (Some [(''maxRetries'', JNum 4)])"
proof -
  have r: "run_calls never_throws example_calls example_factory example_world =
    (fst (run_calls never_throws example_calls example_factory example_world),
     fst (snd (run_calls never_throws example_calls example_factory example_world)),
     snd (snd (run_calls never_throws example_calls example_factory example_world)))"
    by simp
  note th = memoized_identical_iff_same_key [OF example_created r]
  have "resolver (Some [(''maxRetries'', JNum 3), (''endpoint'', JStr ''http://localhost'')])
       = resolver (Some [(''endpoint'', JStr ''http://localhost''), (''maxRetries'', JNum 3)])"
    using th [of 0 2 "''s3''" _ _ 0 0] by (simp add: example_results) (simp add: example_calls_def)
  moreover have "resolver (Some [(''maxRetries'', JNum 3), (''endpoint'', JStr ''http://localhost'')])
       \<noteq> resolver (Some [(''maxRetries'', JNum 4)])"
    using th [of 0 3 "''s3''" _ _ 0 2] by (simp add: example_results) (simp add: example_calls_def)
  ultimately show ?thesis using example_results by simp
qed

text \<open>
  C3. When a memoized constructor is called with an argument whose key is not cached, the
  underlying SDK constructor is called with the factory's defaults overlaid with the
  per-call options: each property of the merged object is the per-call value when the
  per-call options have the key and the default's otherwise. The defaults are those given
  at creation, or the region of the environment when none are given, and no call changes
  them.
\<close>

theorem constructor_receives_merged_options:
  assumes "factory_get f n = Memoized cache" and "map_of factories n = Some cls"
    and "map_of cache (resolver arg) = None"
  shows "trace (snd (snd (factory_call sdk f n arg w)))
           = trace w @ [Construct cls (spread (f_defaults f) arg)]
     \<and> (\<forall>k. get_prop (spread (f_defaults f) arg) k =
          (case arg of
             None \<Rightarrow> get_prop (f_defaults f) k
           | Some ov \<Rightarrow> (case map_of ov k of Some v \<Rightarrow> v | None \<Rightarrow> get_prop (f_defaults f) k)))
     \<and> f_defaults (fst (snd (factory_call sdk f n arg w))) = f_defaults f
     \<and> f_defaults (fst (createClientFactory env co w0)) =
          (case defaults co of
             None \<Rightarrow> [(''region'', case env of None \<Rightarrow> JUndefined | Some r \<Rightarrow> JStr r)]
           | Some d \<Rightarrow> d)"
proof -
  obtain cres cw where c: "construct sdk f cls arg w = (cres, cw)"
    by (cases "construct sdk f cls arg w")
  have t: "trace cw = trace w @ [Construct cls (spread (f_defaults f) arg)]"
    using c construct_Inl [of sdk f cls arg w _ cw] construct_Inr [of sdk f cls arg w _ cw]
    by (cases cres) simp_all
  have "snd (snd (factory_call sdk f n arg w)) = cw"
    and "f_defaults (fst (snd (factory_call sdk f n arg w))) = f_defaults f"
    using factory_call_miss [OF assms, of sdk w] c by (cases cres; simp)+
  moreover have "get_prop (spread (f_defaults f) arg) k =
          (case arg of
             None \<Rightarrow> get_prop (f_defaults f) k
           | Some ov \<Rightarrow> (case map_of ov k of Some v \<Rightarrow> v | None \<Rightarrow> get_prop (f_defaults f) k))" for k
    by (simp add: get_prop_def map_of_spread map_add_def split: option.splits)
  moreover have "f_defaults (fst (createClientFactory env co w0)) =
          (case defaults co of
             None \<Rightarrow> [(''region'', case env of None \<Rightarrow> JUndefined | Some r \<Rightarrow> JStr r)]
           | Some d \<Rightarrow> d)"
    by (simp add: createClientFactory_def Let_def FACTORY_DEFAULTS_def split: option.splits)
  ultimately show ?thesis using t by simp
qed

theorem constructor_receives_merged_options_witness:
  "trace (snd (snd (factory_call never_throws example_factory ''documentclient''
             (Some [(''region'', JStr ''eu-west-1''), (''maxRetries'', JNum 3)]) example_world)))
     = [ConfigUpdate [(''region'', JStr ''us-east-1'')],
        Construct DocumentClient [(''region'', JStr ''eu-west-1''), (''maxRetries'', JNum 3)]]"
proof -
  have f: "map_of factories ''documentclient'' = Some DocumentClient" by code_simp
  have m: "map_of [] (resolver (Some [(''region'', JStr ''eu-west-1''), (''maxRetries'', JNum 3)]))
             = (None :: ref option)" by simp
  have d: "f_defaults example_factory = [(''region'', JStr ''us-east-1'')]" by code_simp
  have t: "trace example_world = [ConfigUpdate [(''region'', JStr ''us-east-1'')]]" by code_simp
  have s: "spread [(''region'', JStr ''us-east-1'')]
             (Some [(''region'', JStr ''eu-west-1''), (''maxRetries'', JNum 3)])
           = [(''region'', JStr ''eu-west-1''), (''maxRetries'', JNum 3)]" by code_simp
  from constructor_receives_merged_options [OF example_get f m, of never_throws example_world]
  show ?thesis by (simp add: d t s)
qed

text \<open>
  C9. On a new factory, the call without argument and the call with the empty options
  object return two distinct instances, although both constructions receive the same
  merged configuration: the keys \<open>undefined\<close> and \<open>{}\<close> differ.
\<close>

theorem no_argument_and_empty_options_differ:
  assumes "createClientFactory env co w0 = (f, w)"
    and "map_of factories n = Some cls"
    and "factory_call sdk f n None w = (Inr (Client a), f1, w1)"
    and "factory_call sdk f1 n (Some []) w1 = (Inr (Client b), f2, w2)"
  shows "a \<noteq> b
     \<and> resolver None \<noteq> resolver (Some [])
     \<and> spread (f_defaults f) (Some []) = spread (f_defaults f) None
     \<and> trace w2 = trace w @ [Construct cls (spread (f_defaults f) None),
                              Construct cls (spread (f_defaults f) None)]"
proof -
  note s1 = factory_call_step [OF assms(3)] and s2 = factory_call_step [OF assms(4)]
  have k: "resolver None \<noteq> resolver (Some [])" by (simp add: resolver_empty) (simp add: resolver_def)
  have l0: "\<And>k. memo_lookup f n k = None" by (rule createClientFactory_lookup [OF assms(1)])
  have la: "memo_lookup f1 n (resolver None) = Some a" by (rule s1(6)) simp
  have l1: "memo_lookup f1 n (resolver (Some [])) = None"
  proof (rule ccontr)
    assume "memo_lookup f1 n (resolver (Some [])) \<noteq> None"
    then obtain r where "memo_lookup f1 n (resolver (Some [])) = Some r" by blast
    from s1(8) [OF this] l0 k show False by simp
  qed
  have "memo_lookup f2 n (resolver (Some [])) = Some b" by (rule s2(6)) simp
  from s2(8) [OF this] l1 have b: "length (heap w1) \<le> b" by simp
  from s1(8) [OF la] l0 have "a < length (heap w1)" by simp
  with b have ab: "a \<noteq> b" by simp
  have t1: "trace w1 = trace w @ [Construct cls (spread (f_defaults f) None)]"
  proof -
    have "n \<in> fst ` set factories"
      using assms(2) map_of_eq_None_iff [of factories n] by auto
    with createClientFactory_get [OF assms(1), of n]
    have g: "factory_get f n = Memoized []" "map_of [] (resolver None) = (None :: ref option)"
      by simp_all
    obtain cres cw where c: "construct sdk f cls None w = (cres, cw)"
      by (cases "construct sdk f cls None w")
    with factory_call_miss [OF g(1) assms(2) g(2), of sdk w] assms(3)
    have "cres = Inr a" "w1 = cw" by (cases cres; simp)+
    with construct_Inr [of sdk f cls None w a cw] c show ?thesis by simp
  qed
  have t2: "trace w2 = trace w1 @ [Construct cls (spread (f_defaults f1) (Some []))]"
  proof -
    from factory_call_Inr_known [OF assms(4)] obtain cache
      where g1: "factory_get f1 n = Memoized cache" by blast
    with l1 have g: "factory_get f1 n = Memoized cache" "map_of cache (resolver (Some [])) = None"
      by (simp_all add: memo_lookup_def factory_get_Memoized)
    obtain cres cw where c: "construct sdk f1 cls (Some []) w1 = (cres, cw)"
      by (cases "construct sdk f1 cls (Some []) w1")
    with factory_call_miss [OF g(1) assms(2) g(2), of sdk w1] assms(4)
    have "cres = Inr b" "w2 = cw" by (cases cres; simp)+
    with construct_Inr [of sdk f1 cls "Some []" w1 b cw] c show ?thesis by simp
  qed
  from t1 t2 s1(3) ab k show ?thesis by (simp add: spread_empty)
qed

theorem no_argument_and_empty_options_differ_witness:
  "fst (factory_call never_throws example_factory ''s3'' None example_world) = Inr (Client 0)
   \<and> fst (factory_call never_throws
           (fst (snd (factory_call never_throws example_factory ''s3'' None example_world)))
           ''s3'' (Some [])
           (snd (snd (factory_call never_throws example_factory ''s3'' None example_world)))) = Inr (Client 1)
   \<and> (0::nat) \<noteq> 1"
proof -
  let ?c1 = "factory_call never_throws example_factory ''s3'' None example_world"
  let ?c2 = "factory_call never_throws (fst (snd ?c1)) ''s3'' (Some []) (snd (snd ?c1))"
  have r1: "fst ?c1 = Inr (Client 0)" by code_simp
  have r2: "fst ?c2 = Inr (Client 1)" by code_simp
  have c1: "?c1 = (Inr (Client 0), fst (snd ?c1), snd (snd ?c1))"
    using r1 by (metis prod.collapse)
  have c2: "?c2 = (Inr (Client 1), fst (snd ?c2), snd (snd ?c2))"
    using r2 by (metis prod.collapse)
  have f: "map_of factories ''s3'' = Some S3" by code_simp
  from no_argument_and_empty_options_differ [OF example_created f c1 c2] r1 r2
  show ?thesis by simp
qed

section \<open>The process-wide configuration\<close>

text \<open>
  C7. Creating a factory calls \<open>AWS.config.update\<close> once, with the defaults, and does
  nothing else: the call is the one event it adds to the trace, no object is allocated,
  and the global clock offset is the one of the defaults when they have that key.
  Whatever calls follow on the factory add no further update to the trace and leave the
  global clock offset as it is.
\<close>

theorem config_updated_once_at_creation:
  assumes "createClientFactory env co w0 = (f, w)"
    and "run_calls sdk cs f w = (rs, f', w')"
  shows "trace w = trace w0 @ [ConfigUpdate (f_defaults f)]
     \<and> heap w = heap w0
     \<and> global_clock w =
         (case map_of (f_defaults f) ''systemClockOffset'' of
            None \<Rightarrow> global_clock w0
          | Some v \<Rightarrow> if v = JUndefined then JNum 0 else v)
     \<and> take (length (trace w)) (trace w') = trace w
     \<and> filter is_update (drop (length (trace w)) (trace w')) = []
     \<and> global_clock w' = global_clock w"
proof -
  from createClientFactory_props(4) [OF assms(1)]
  have "w = config_update (f_defaults f) w0" .
  then have a: "trace w = trace w0 @ [ConfigUpdate (f_defaults f)]" "heap w = heap w0"
      "global_clock w =
         (case map_of (f_defaults f) ''systemClockOffset'' of
            None \<Rightarrow> global_clock w0
          | Some v \<Rightarrow> if v = JUndefined then JNum 0 else v)"
    by (simp_all add: config_update_def Let_def global_clock_def systemClockOffset_def
          config_set_clock_def split: option.splits)
  from run_calls_frame [OF assms(2)] obtain ds
    where "trace w' = trace w @ ds" "filter is_update ds = []"
      "globalClockOffset w' = globalClockOffset w"
    by blast
  with a show ?thesis by (simp add: global_clock_def)
qed

theorem config_updated_once_at_creation_witness:
  "trace example_world = [ConfigUpdate [(''region'', JStr ''us-east-1'')]]
   \<and> filter is_update
        (trace (snd (snd (run_calls never_throws example_calls example_factory example_world))))
       = [ConfigUpdate [(''region'', JStr ''us-east-1'')]]
   \<and> global_clock (snd (createClientFactory None clock_opts initial_world)) = JNum 5"
proof -
  let ?cf = "createClientFactory None clock_opts initial_world"
  have cf: "?cf = (fst ?cf, snd ?cf)" by simp
  have cr: "run_calls never_throws [] (fst ?cf) (snd ?cf) = ([], fst ?cf, snd ?cf)" by simp
  have cd: "map_of (f_defaults (fst ?cf)) ''systemClockOffset'' = Some (JNum 5)" by code_simp
  from config_updated_once_at_creation [OF cf cr]
  have "global_clock (snd ?cf) =
         (case map_of (f_defaults (fst ?cf)) ''systemClockOffset'' of
            None \<Rightarrow> global_clock initial_world
          | Some v \<Rightarrow> if v = JUndefined then JNum 0 else v)"
    by blast
  then have k: "global_clock (snd ?cf) = JNum 5" by (simp add: cd)
  have r: "run_calls never_throws example_calls example_factory example_world =
    (fst (run_calls never_throws example_calls example_factory example_world),
     fst (snd (run_calls never_throws example_calls example_factory example_world)),
     snd (snd (run_calls never_throws example_calls example_factory example_world)))"
    by simp
  have d: "f_defaults example_factory = [(''region'', JStr ''us-east-1'')]" by code_simp
  have t: "trace initial_world = []" by (simp add: initial_world_def)
  let ?w = "snd (snd (run_calls never_throws example_calls example_factory example_world))"
  note th = config_updated_once_at_creation [OF example_created r]
  from th have a: "trace example_world = [ConfigUpdate [(''region'', JStr ''us-east-1'')]]"
    by (simp add: d t)
  from th have b: "take (length (trace example_world)) (trace ?w) = trace example_world"
    and c: "filter is_update (drop (length (trace example_world)) (trace ?w)) = []"
    by blast+
  have "filter is_update (trace ?w)
      = filter is_update (take (length (trace example_world)) (trace ?w))
        @ filter is_update (drop (length (trace example_world)) (trace ?w))"
    by (simp only: filter_append [symmetric] append_take_drop_id)
  with a b c k show ?thesis by (simp add: is_update_def)
qed

section \<open>Clock synchronisation\<close>

text \<open>
  C5. The helper looks at the client itself, or at the service object a document client
  wraps. When that object has no configuration the state is unchanged. Otherwise its
  clock offset becomes the accessor of the global one, clients synced before stay synced
  and the global offset keeps its value. Of a synced client, in any state: reading the
  offset gives the global offset, writing it sets the global offset, and every synced
  client then reads the value written.
\<close>

theorem useGlobalConfigClock_shares_offset:
  assumes "target = (case deref w r of Some (DocumentClientObj s) \<Rightarrow> s | _ \<Rightarrow> r)"
  shows "(config_of w target = None \<longrightarrow> useGlobalConfigClock r w = w)
     \<and> (config_of w target \<noteq> None \<longrightarrow> synced (useGlobalConfigClock r w) target)
     \<and> (\<forall>t. synced w t \<longrightarrow> synced (useGlobalConfigClock r w) t)
     \<and> global_clock (useGlobalConfigClock r w) = global_clock w
     \<and> (\<forall>u t v. synced u t \<longrightarrow>
           read_clock u t = Some (global_clock u)
         \<and> global_clock (write_clock t v u) = v
         \<and> read_clock (set_global_clock v u) t = Some v
         \<and> (\<forall>t2. synced u t2 \<longrightarrow>
               synced (write_clock t v u) t2 \<and> read_clock (write_clock t v u) t2 = Some v))"
  unfolding assms
  using useGlobalConfigClock_no_config [of w r] useGlobalConfigClock_synced [of w r]
  by (simp add: useGlobalConfigClock_keeps_synced global_clock_useGlobalConfigClock
        synced_read synced_write synced_set_global)

theorem useGlobalConfigClock_shares_offset_witness:
  "config_of example_clients 0 \<noteq> None
   \<and> deref example_clients 1 = Some (DocumentClientObj 0)
   \<and> read_clock (write_clock 2 (JNum 7)
         (useGlobalConfigClock 2 (useGlobalConfigClock 1 example_clients))) 0 = Some (JNum 7)"
proof -
  let ?w1 = "useGlobalConfigClock 1 example_clients"
  let ?w2 = "useGlobalConfigClock 2 ?w1"
  have d1: "deref example_clients 1 = Some (DocumentClientObj 0)" by code_simp
  have c1: "config_of example_clients 0 \<noteq> None" by code_simp
  have t1: "(0::nat) = (case deref example_clients 1 of Some (DocumentClientObj s) \<Rightarrow> s | _ \<Rightarrow> 1)"
    unfolding d1 by simp
  from useGlobalConfigClock_shares_offset [OF t1] c1 have s1: "synced ?w1 0" by blast
  have t2: "(2::nat) = (case deref ?w1 2 of Some (DocumentClientObj s) \<Rightarrow> s | _ \<Rightarrow> 2)"
    by code_simp
  have c2: "config_of ?w1 2 \<noteq> None" by code_simp
  note th2 = useGlobalConfigClock_shares_offset [OF t2]
  from th2 c2 have s2: "synced ?w2 2" by blast
  from th2 s1 have s0: "synced ?w2 0" by blast
  from th2 s2 s0 have "read_clock (write_clock 2 (JNum 7) ?w2) 0 = Some (JNum 7)" by blast
  with c1 d1 show ?thesis by simp
qed

section \<open>The cache object\<close>



text \<open>
  C10 fails as stated: the field \<open>factory\<close> of the cache object is the factory its
  getters call. After the direct call \<open>cache.factory.s3()\<close> the constructor has been
  called although no property has been read (\<open>instantiated\<close> is empty), and the first
  read of \<open>cache.s3\<close> then returns that instance without a constructor call.
\<close>

theorem direct_factory_call_constructs_before_first_read:
  "fst example_direct = Inr (Client 0)
   \<and> c_instantiated (fst (snd example_direct)) = []
   \<and> trace (snd (snd example_direct))
       = [ConfigUpdate [(''region'', JStr ''us-east-1'')],
          Construct S3 [(''region'', JStr ''us-east-1'')]]
   \<and> fst (cache_get never_throws (fst (snd example_direct)) ''s3'' (snd (snd example_direct)))
       = Inr (Client 0)
   \<and> trace (snd (snd (cache_get never_throws (fst (snd example_direct)) ''s3''
                         (snd (snd example_direct)))))
       = [ConfigUpdate [(''region'', JStr ''us-east-1'')],
          Construct S3 [(''region'', JStr ''us-east-1'')]]"
  by code_simp

text \<open>
  C10, amended. createClientCache constructs nothing: it allocates no object, the only
  event it adds to the trace is the configuration update of the factory, instantiated is
  empty, and every service name is a property of the factory whose memoized constructor
  holds no instance. In every state of a cache object, a read of a service property calls
  the SDK constructor, with the defaults alone, when the factory holds no instance for the
  call without argument, and calls nothing when it holds one. A direct call on
  \<open>cache.factory\<close> that returns an instance leaves it in the factory and records nothing
  in instantiated.
\<close>

theorem createClientCache_constructs_nothing:
  assumes "createClientCache env co w0 = (c, w)"
  shows "c_instantiated c = []
     \<and> heap w = heap w0
     \<and> trace w = trace w0 @ [ConfigUpdate (f_defaults (c_factory c))]
     \<and> (\<forall>n key. memo_lookup (c_factory c) n key = None)
     \<and> (\<forall>n cls. map_of factories n = Some cls \<longrightarrow>
          map_of (f_memoized (c_factory c)) n = Some [])
     \<and> (\<forall>sdk d u n cls cache.
          map_of factories n = Some cls \<and> map_of (f_memoized (c_factory d)) n = Some cache \<longrightarrow>
            (map_of cache (resolver None) = None \<longrightarrow>
               trace (snd (snd (cache_get sdk d n u)))
                 = trace u @ [Construct cls (spread (f_defaults (c_factory d)) None)])
          \<and> (\<forall>a. map_of cache (resolver None) = Some a \<longrightarrow>
               cache_get sdk d n u =
                 (Inr (Client a), d\<lparr>c_instantiated := AList.update n a (c_instantiated d)\<rparr>, u)))
     \<and> (\<forall>sdk d u n arg a d1 u1.
          cache_factory_call sdk d n arg u = (Inr (Client a), d1, u1) \<longrightarrow>
            memo_lookup (c_factory d1) n (resolver arg) = Some a
          \<and> c_instantiated d1 = c_instantiated d)"
proof -
  note cc = createClientCache_props [OF assms]
  from createClientFactory_props(4) [OF cc(1)]
  have w: "heap w = heap w0" "trace w = trace w0 @ [ConfigUpdate (f_defaults (c_factory c))]"
    by (simp_all add: config_update_def Let_def split: option.splits)
  have own: "map_of (f_memoized (c_factory c)) n = Some []"
    if f: "map_of factories n = Some cls" for n cls
  proof -
    have "n \<in> fst ` set factories"
      using f map_of_eq_None_iff [of factories n] by auto
    with createClientFactory_get [OF cc(1), of n] show ?thesis
      by (simp add: factory_get_Memoized)
  qed
  have miss: "trace (snd (snd (cache_get sdk d n u)))
                 = trace u @ [Construct cls (spread (f_defaults (c_factory d)) None)]"
    if f: "map_of factories n = Some cls"
      and o: "map_of (f_memoized (c_factory d)) n = Some cache"
      and m: "map_of cache (resolver None) = None" for sdk d u n cls cache
  proof -
    obtain cres cw where cn: "construct sdk (c_factory d) cls None u = (cres, cw)"
      by (cases "construct sdk (c_factory d) cls None u")
    have t: "trace cw = trace u @ [Construct cls (spread (f_defaults (c_factory d)) None)]"
      using cn construct_Inl [of sdk "c_factory d" cls None u _ cw]
        construct_Inr [of sdk "c_factory d" cls None u _ cw]
      by (cases cres) simp_all
    from memoized_call_miss [OF f o m, of sdk u] cn t show ?thesis
      by (cases cres) (simp_all add: cache_get_def o)
  qed
  have hit: "cache_get sdk d n u =
                 (Inr (Client a), d\<lparr>c_instantiated := AList.update n a (c_instantiated d)\<rparr>, u)"
    if f: "map_of factories n = Some cls"
      and o: "map_of (f_memoized (c_factory d)) n = Some cache"
      and m: "map_of cache (resolver None) = Some a" for sdk d u n cls cache a
  proof -
    from o m have "memo_lookup (c_factory d) n (resolver None) = Some a"
      by (simp add: memo_lookup_def)
    from cache_get_hit [OF this f] show ?thesis .
  qed
  have direct: "memo_lookup (c_factory d1) n (resolver arg) = Some a
          \<and> c_instantiated d1 = c_instantiated d"
    if h: "cache_factory_call sdk d n arg u = (Inr (Client a), d1, u1)" for sdk d u n arg a d1 u1
  proof -
    obtain res f1 fw where fc: "factory_call sdk (c_factory d) n arg u = (res, f1, fw)"
      by (cases "factory_call sdk (c_factory d) n arg u")
    with h have "res = Inr (Client a)" "d1 = d\<lparr>c_factory := f1\<rparr>"
      by (simp_all add: cache_factory_call_def)
    with factory_call_step(6) [OF fc, of a] show ?thesis by simp
  qed
  show ?thesis
    using cc(2) w createClientFactory_lookup [OF cc(1)]
    by (auto intro: own miss hit dest: direct)
qed

theorem createClientCache_constructs_nothing_witness:
  "c_instantiated example_cache = [] \<and> heap example_world = []
   \<and> trace example_world = [ConfigUpdate [(''region'', JStr ''us-east-1'')]]
   \<and> trace (snd (snd (cache_get never_throws example_cache ''sqs'' example_world)))
       = [ConfigUpdate [(''region'', JStr ''us-east-1'')],
          Construct SQS [(''region'', JStr ''us-east-1'')]]
   \<and> cache_get never_throws (fst (snd example_direct)) ''s3'' (snd (snd example_direct))
       = (Inr (Client 0),
          (fst (snd example_direct))\<lparr>c_instantiated := [(''s3'', 0)]\<rparr>,
          snd (snd example_direct))"
proof -
  note th = createClientCache_constructs_nothing [OF example_cache_created]
  have f: "map_of factories ''sqs'' = Some SQS" "map_of factories ''s3'' = Some S3"
    by code_simp+
  have d: "f_defaults (c_factory example_cache) = [(''region'', JStr ''us-east-1'')]" by code_simp
  have s: "spread [(''region'', JStr ''us-east-1'')] None = [(''region'', JStr ''us-east-1'')]"
    by code_simp
  have i: "heap initial_world = []" "trace initial_world = []" by (simp_all add: initial_world_def)
  have m: "map_of [] (resolver None) = (None :: ref option)" by simp
  from th have a: "c_instantiated example_cache = []" "heap example_world = heap initial_world"
    "trace example_world = trace initial_world @ [ConfigUpdate (f_defaults (c_factory example_cache))]"
    by blast+
  from th f(1) have o: "map_of (f_memoized (c_factory example_cache)) ''sqs'' = Some []"
    by blast
  from th f(1) o m
  have b: "trace (snd (snd (cache_get never_throws example_cache ''sqs'' example_world)))
       = trace example_world @ [Construct SQS (spread (f_defaults (c_factory example_cache)) None)]"
    by blast
  have o2: "map_of (f_memoized (c_factory (fst (snd example_direct)))) ''s3''
              = Some [(resolver None, 0)]" by code_simp
  have m2: "map_of [(resolver None, 0::ref)] (resolver None) = Some 0" by simp
  have i2: "c_instantiated (fst (snd example_direct)) = []" by code_simp
  from th f(2) o2 m2
  have "cache_get never_throws (fst (snd example_direct)) ''s3'' (snd (snd example_direct))
       = (Inr (Client 0),
          (fst (snd example_direct))\<lparr>c_instantiated :=
             AList.update ''s3'' 0 (c_instantiated (fst (snd example_direct)))\<rparr>,
          snd (snd example_direct))"
    by blast
  with a b show ?thesis by (simp add: d s i i2)
qed

section \<open>Exceptions, unknown names and the memoization key\<close>

text \<open>
  C6 fails as stated: the factory and the cache object are plain objects, so a name that
  is no service name can still be a member of \<open>Object.prototype\<close>. \<open>toString\<close> is not
  in the table, yet \<open>factory.toString\<close> is the inherited function, calling it returns a
  string, and \<open>cache.constructor\<close> is not \<open>undefined\<close> either.
\<close>

theorem inherited_names_are_not_undefined:
  "map_of factories ''toString'' = None
   \<and> factory_get example_factory ''toString'' = Inherited ''toString''
   \<and> fst (factory_call never_throws example_factory ''toString'' None example_world)
       = Inr (Str ''[object Object]'')
   \<and> map_of factories ''constructor'' = None
   \<and> fst (cache_get never_throws example_cache ''constructor'' example_world)
       = Inr (Inherited ''constructor'')"
  by code_simp

text \<open>
  C6, amended. When the SDK constructor throws on a key that is not cached, the memoized
  constructor returns that same exception and the factory is unchanged, so the key stays
  uncached; the getter of the cache object returns the same exception and records
  nothing. Names are not validated: a name that is not a service name reads as
  \<open>undefined\<close> on the factory, and on the cache object unless it is one of its two
  fields, except for the names of \<open>Object.prototype\<close>, which read as the inherited
  member.
\<close>

theorem constructor_exception_propagates:
  assumes "factory_get f n = Memoized cache" and "map_of factories n = Some cls"
    and "map_of cache (resolver arg) = None"
    and "sdk cls (spread (f_defaults f) arg) w = Some e"
  shows "factory_call sdk f n arg w
           = (Inl e, f, w\<lparr>trace := trace w @ [Construct cls (spread (f_defaults f) arg)]\<rparr>)
     \<and> memo_lookup f n (resolver arg) = None
     \<and> (\<forall>c. c_factory c = f \<and> arg = None \<longrightarrow>
          cache_get sdk c n w
            = (Inl e, c, w\<lparr>trace := trace w @ [Construct cls (spread (f_defaults f) arg)]\<rparr>))
     \<and> (\<forall>m env co w0 sdk2 ns rs c u.
          map_of factories m = None
          \<and> run_reads sdk2 ns (fst (createClientCache env co w0)) (snd (createClientCache env co w0))
              = (rs, c, u) \<longrightarrow>
            factory_get (c_factory c) m
              = (if m \<in> set object_prototype then Inherited m else Undefined)
          \<and> (m \<noteq> ''factory'' \<and> m \<noteq> ''instantiated'' \<longrightarrow>
               cache_get sdk2 c m u
                 = (Inr (if m \<in> set object_prototype then Inherited m else Undefined), c, u)))"
proof -
  obtain cres cw where cn: "construct sdk f cls arg w = (cres, cw)"
    by (cases "construct sdk f cls arg w")
  have "cres = Inl e \<and> cw = w\<lparr>trace := trace w @ [Construct cls (spread (f_defaults f) arg)]\<rparr>"
  proof (cases cres)
    case (Inl e')
    with construct_Inl [of sdk f cls arg w e' cw] cn assms(4) show ?thesis by simp
  next
    case (Inr r)
    with construct_Inr [of sdk f cls arg w r cw] cn assms(4) show ?thesis by simp
  qed
  with factory_call_miss [OF assms(1-3), of sdk w] cn
  have fc: "factory_call sdk f n arg w
           = (Inl e, f, w\<lparr>trace := trace w @ [Construct cls (spread (f_defaults f) arg)]\<rparr>)"
    by simp
  from assms(1,3) have ml: "memo_lookup f n (resolver arg) = None"
    by (simp add: memo_lookup_def factory_get_Memoized)
  from assms(1) have ks: "n \<in> set (map fst (f_memoized f))"
    unfolding own_key_iff by (simp add: factory_get_Memoized)
  have cg: "cache_get sdk c n w
            = (Inl e, c, w\<lparr>trace := trace w @ [Construct cls (spread (f_defaults f) arg)]\<rparr>)"
    if h: "c_factory c = f \<and> arg = None" for c
  proof -
    from h ks have k: "n \<in> set (map fst (f_memoized (c_factory c)))" by simp
    from h fc
    have "factory_call sdk (c_factory c) n None w
           = (Inl e, f, w\<lparr>trace := trace w @ [Construct cls (spread (f_defaults f) arg)]\<rparr>)"
      by simp
    from cache_get_service [OF k this] h show ?thesis by auto
  qed
  have un: "factory_get (c_factory c) m
              = (if m \<in> set object_prototype then Inherited m else Undefined)
          \<and> (m \<noteq> ''factory'' \<and> m \<noteq> ''instantiated'' \<longrightarrow>
               cache_get sdk2 c m u
                 = (Inr (if m \<in> set object_prototype then Inherited m else Undefined), c, u))"
    if h: "map_of factories m = None
          \<and> run_reads sdk2 ns (fst (createClientCache env co w0)) (snd (createClientCache env co w0))
              = (rs, c, u)" for m env co w0 sdk2 ns rs c u
  proof -
    let ?c0 = "fst (createClientCache env co w0)"
    let ?w1 = "snd (createClientCache env co w0)"
    have cc0: "createClientCache env co w0 = (?c0, ?w1)" by simp
    note cc = createClientCache_props [OF cc0]
    from h have rr: "run_reads sdk2 ns ?c0 ?w1 = (rs, c, u)" by simp
    from run_reads_props [OF cc(3) rr] createClientFactory_props(3) [OF cc(1)]
    have "map fst (f_memoized (c_factory c)) = map fst factories"
      by (simp add: case_prod_unfold comp_def)
    with h have nk: "m \<notin> set (map fst (f_memoized (c_factory c)))"
      by (simp add: map_of_eq_None_iff)
    then have "map_of (f_memoized (c_factory c)) m = None"
      unfolding own_key_iff by simp
    from factory_get_not_own [OF this] cache_get_other [OF nk, of sdk2 u] show ?thesis by simp
  qed
  from fc ml cg un show ?thesis by blast
qed

theorem constructor_exception_propagates_witness:
  "factory_call (throws_on SQS ''boom'') example_factory ''sqs''
       (Some [(''maxRetries'', JNum 1)]) example_world
     = (Inl (SdkError ''boom''), example_factory,
        example_world\<lparr>trace := trace example_world @
          [Construct SQS [(''region'', JStr ''us-east-1''), (''maxRetries'', JNum 1)]]\<rparr>)
   \<and> factory_get example_factory ''ec2'' = Undefined
   \<and> cache_get never_throws example_cache ''ec2'' example_world
       = (Inr Undefined, example_cache, example_world)
   \<and> cache_get never_throws example_cache ''valueOf'' example_world
       = (Inr (Inherited ''valueOf''), example_cache, example_world)"
proof -
  have g: "factory_get example_factory ''sqs'' = Memoized []" by code_simp
  have f: "map_of factories ''sqs'' = Some SQS" by code_simp
  have m: "map_of [] (resolver (Some [(''maxRetries'', JNum 1)])) = (None :: ref option)" by simp
  have d: "spread (f_defaults example_factory) (Some [(''maxRetries'', JNum 1)])
             = [(''region'', JStr ''us-east-1''), (''maxRetries'', JNum 1)]" by code_simp
  have t: "throws_on SQS ''boom'' SQS
             (spread (f_defaults example_factory) (Some [(''maxRetries'', JNum 1)])) example_world
           = Some (SdkError ''boom'')" by (simp add: throws_on_def)
  note th = constructor_exception_propagates [where sdk = "throws_on SQS ''boom''", OF g f m t]
  have u: "map_of factories ''ec2'' = None" "map_of factories ''valueOf'' = None" by code_simp+
  have p: "''ec2'' \<notin> set object_prototype" "''valueOf'' \<in> set object_prototype"
    by (simp_all add: object_prototype_def)
  have r: "run_reads never_throws [] (fst (createClientCache None example_opts initial_world))
             (snd (createClientCache None example_opts initial_world))
           = ([], example_cache, example_world)"
    by (simp add: example_cache_created)
  have cf: "c_factory example_cache = example_factory" by code_simp
  from th u(1) r have "factory_get (c_factory example_cache) ''ec2''
         = (if ''ec2'' \<in> set object_prototype then Inherited ''ec2'' else Undefined)
     \<and> (''ec2'' \<noteq> ''factory'' \<and> ''ec2'' \<noteq> ''instantiated'' \<longrightarrow>
           cache_get never_throws example_cache ''ec2'' example_world
             = (Inr (if ''ec2'' \<in> set object_prototype then Inherited ''ec2'' else Undefined),
                example_cache, example_world))"
    by blast
  with p(1) cf have a: "factory_get example_factory ''ec2'' = Undefined"
    "cache_get never_throws example_cache ''ec2'' example_world
       = (Inr Undefined, example_cache, example_world)" by simp_all
  from th u(2) r have "(''valueOf'' \<noteq> ''factory'' \<and> ''valueOf'' \<noteq> ''instantiated'' \<longrightarrow>
           cache_get never_throws example_cache ''valueOf'' example_world
             = (Inr (if ''valueOf'' \<in> set object_prototype then Inherited ''valueOf''
                     else Undefined),
                example_cache, example_world))"
    by blast
  with p(2) have b: "cache_get never_throws example_cache ''valueOf'' example_world
       = (Inr (Inherited ''valueOf''), example_cache, example_world)" by simp
  from th have "factory_call (throws_on SQS ''boom'') example_factory ''sqs''
       (Some [(''maxRetries'', JNum 1)]) example_world
     = (Inl (SdkError ''boom''), example_factory,
        example_world\<lparr>trace := trace example_world @
          [Construct SQS (spread (f_defaults example_factory) (Some [(''maxRetries'', JNum 1)]))]\<rparr>)"
    by blast
  with a b show ?thesis by (simp add: d)
qed

text \<open>
  C2 fails as stated: with the region as default, the calls with the options \<open>{}\<close> and
  \<open>{region: 'us-east-1'}\<close> have merged configurations that serialize to the same
  string, and they build two instances.
\<close>

theorem merged_configuration_is_not_the_key:
  "stableStringify (JObj (spread (f_defaults example_factory) (Some [])))
     = stableStringify (JObj (spread (f_defaults example_factory)
         (Some [(''region'', JStr ''us-east-1'')])))
   \<and> fst (run_calls never_throws
         [(''s3'', Some []), (''s3'', Some [(''region'', JStr ''us-east-1'')])]
         example_factory example_world) = [Inr (Client 0), Inr (Client 1)]"
  by code_simp

text \<open>
  C2, amended. A cache entry is keyed by the serialization of the per-call argument alone:
  a call that returns an instance leaves it under the key of its argument, every later
  call whose argument has that key returns it without touching the state, and no other
  entry of the factory changes.
\<close>

theorem cache_keyed_by_per_call_argument:
  assumes "factory_call sdk f n arg w = (Inr (Client r), f1, w1)"
  shows "memo_lookup f1 n (resolver arg) = Some r
     \<and> (\<forall>arg2 u. resolver arg2 = resolver arg \<longrightarrow>
          factory_call sdk f1 n arg2 u = (Inr (Client r), f1, u))
     \<and> (\<forall>m k. (m, k) \<noteq> (n, resolver arg) \<longrightarrow> memo_lookup f1 m k = memo_lookup f m k)"
proof -
  note st = factory_call_step [OF assms]
  from st(6) have l: "memo_lookup f1 n (resolver arg) = Some r" by simp
  from factory_call_Inr_known [OF assms] obtain cls where f: "map_of factories n = Some cls"
    by blast
  have hit: "factory_call sdk f1 n arg2 u = (Inr (Client r), f1, u)"
    if "resolver arg2 = resolver arg" for arg2 u
    using memo_lookup_hit [of f1 n arg2 r cls sdk u] l f that by simp
  have fr: "memo_lookup f1 m k = memo_lookup f m k" if "(m, k) \<noteq> (n, resolver arg)" for m k
  proof (cases "memo_lookup f1 m k")
    case None
    with st(7) [of m k] show ?thesis by (cases "memo_lookup f m k") auto
  next
    case (Some x)
    from st(8) [OF Some] that Some show ?thesis by auto
  qed
  from l hit fr show ?thesis by blast
qed

theorem cache_keyed_by_per_call_argument_witness:
  "fst (factory_call never_throws example_factory ''s3''
          (Some [(''maxRetries'', JNum 3), (''endpoint'', JStr ''http://localhost'')])
          example_world) = Inr (Client 0)
   \<and> fst (factory_call never_throws
          (fst (snd (factory_call never_throws example_factory ''s3''
             (Some [(''maxRetries'', JNum 3), (''endpoint'', JStr ''http://localhost'')])
             example_world)))
          ''s3'' (Some [(''endpoint'', JStr ''http://localhost''), (''maxRetries'', JNum 3)])
          initial_world) = Inr (Client 0)"
proof -
  let ?A = "Some [(''maxRetries'', JNum 3), (''endpoint'', JStr ''http://localhost'')]"
  let ?B = "Some [(''endpoint'', JStr ''http://localhost''), (''maxRetries'', JNum 3)]"
  let ?c = "factory_call never_throws example_factory ''s3'' ?A example_world"
  have r: "fst ?c = Inr (Client 0)" by code_simp
  then have c: "?c = (Inr (Client 0), fst (snd ?c), snd (snd ?c))" by (metis prod.collapse)
  have k: "resolver ?B = resolver ?A" by code_simp
  from cache_keyed_by_per_call_argument [OF c] k
  have "factory_call never_throws (fst (snd ?c)) ''s3'' ?B initial_world
          = (Inr (Client 0), fst (snd ?c), initial_world)" by blast
  with r show ?thesis by simp
qed

section \<open>The region list\<close>

text \<open>
  C8. The region list has no duplicate entry and contains \<open>us-east-1\<close>.
\<close>

theorem REGIONS_distinct_and_us_east_1:
  "distinct REGIONS \<and> ''us-east-1'' \<in> set REGIONS"
  unfolding REGIONS_def by simp

end
